theory Spec2Isabelle
  imports Complex_Main
begin

section \<open>Data model of \<open>SnakeGame.tsx\<close>\<close>

text \<open>
  The component keeps one \<open>GameState\<close> object, a difficulty key, a \<open>gameStarted\<close> flag,
  three display flags and two entries of the browser's \<open>localStorage\<close>. Coordinates,
  scores and levels are JavaScript numbers that only ever hold small integers; they are
  modelled as \<open>int\<close>.
\<close>

record Position =
  x :: int
  y :: int

definition GRID_SIZE :: int where
  "GRID_SIZE = 20"

definition INITIAL_SNAKE :: "Position list" where
  "INITIAL_SNAKE = [\<lparr>x = 10, y = 10\<rparr>]"

definition INITIAL_FOOD :: Position where
  "INITIAL_FOOD = \<lparr>x = 15, y = 15\<rparr>"

section \<open>Food placement\<close>

text \<open>
  \<open>Math.random()\<close> is modelled by the sequence of numbers it returns, \<open>rnd 0\<close>,
  \<open>rnd 1\<close>, ...; each is a fraction in the half-open interval from 0 to 1.
  One round of the \<open>do ... while\<close> loop of \<open>generateFood\<close> draws two of them, first for
  \<open>x\<close>, then for \<open>y\<close>.
\<close>

definition valid_random :: "(nat \<Rightarrow> rat) \<Rightarrow> bool" where
  "valid_random rnd \<longleftrightarrow> (\<forall>k. 0 \<le> rnd k \<and> rnd k < 1)"

definition draw :: "(nat \<Rightarrow> rat) \<Rightarrow> nat \<Rightarrow> Position" where
  "draw rnd i = \<lparr>x = \<lfloor>rnd i * of_int GRID_SIZE\<rfloor>, y = \<lfloor>rnd (Suc i) * of_int GRID_SIZE\<rfloor>\<rparr>"

text \<open>
  The loop has no bound on the number of rounds: it is a partial function, and \<open>None\<close>
  says that it never returns.
\<close>

partial_function (option) generateFood_loop ::
  "(nat \<Rightarrow> rat) \<Rightarrow> nat \<Rightarrow> Position list \<Rightarrow> Position option" where
  "generateFood_loop rnd i snake =
     (let newFood = draw rnd i in
      if list_ex (\<lambda>segment. x segment = x newFood \<and> y segment = y newFood) snake
      then generateFood_loop rnd (i + 2) snake
      else Some newFood)"

definition generateFood :: "(nat \<Rightarrow> rat) \<Rightarrow> Position list \<Rightarrow> Position option" where
  "generateFood rnd snake = generateFood_loop rnd 0 snake"

section \<open>Game state\<close>

record GameRecord =
  score :: int
  level :: int
  date :: string
  difficulty :: string

record GameState =
  snake :: "Position list"
  food :: Position
  direction :: string
  gameOver :: bool
  paused :: bool
  score :: int
  level :: int
  highScore :: int
  gameHistory :: "GameRecord list"

datatype Difficulty = easy | medium | hard | insane

text \<open>The table \<open>DIFFICULTIES\<close>, one function per column that the game logic reads.\<close>

fun DIFFICULTIES_speed :: "Difficulty \<Rightarrow> int" where
  "DIFFICULTIES_speed easy = 200"
| "DIFFICULTIES_speed medium = 150"
| "DIFFICULTIES_speed hard = 100"
| "DIFFICULTIES_speed insane = 50"

fun DIFFICULTIES_name :: "Difficulty \<Rightarrow> string" where
  "DIFFICULTIES_name easy = ''Easy''"
| "DIFFICULTIES_name medium = ''Medium''"
| "DIFFICULTIES_name hard = ''Hard''"
| "DIFFICULTIES_name insane = ''Insane''"

text \<open>
  The two keys of \<open>localStorage\<close> that the component writes. The source stores the
  decimal text of the high score and the JSON text of the history; the model stores the
  values themselves, \<open>None\<close> standing for an absent key.
\<close>

record Storage =
  snakeHighScore :: "int option"
  snakeGameHistory :: "GameRecord list option"

record Component =
  gameState :: GameState
  difficulty :: Difficulty
  gameStarted :: bool
  showSettings :: bool
  soundEnabled :: bool
  showHistory :: bool
  localStorage :: Storage

section \<open>Persistence: \<open>saveGameData\<close>\<close>

text \<open>
  \<open>saveGameData\<close> is a closure: it reads \<open>highScore\<close>, \<open>gameHistory\<close> and \<open>difficulty\<close>
  of the component as rendered (\<open>closure\<close>), writes both storage keys and queues a state
  update that replaces \<open>highScore\<close> and \<open>gameHistory\<close> in the state current at that
  moment (\<open>c\<close>). \<open>today\<close> is the date part of \<open>new Date().toISOString()\<close>.
\<close>

definition saveGameData :: "string \<Rightarrow> Component \<Rightarrow> int \<Rightarrow> int \<Rightarrow> Component \<Rightarrow> Component" where
  "saveGameData today closure score' level' c =
     (let newHighScore = max (highScore (gameState closure)) score';
          newRecord = \<lparr>GameRecord.score = score', GameRecord.level = level', date = today,
                       difficulty = DIFFICULTIES_name (Component.difficulty closure)\<rparr>;
          updatedHistory = take 10 (newRecord # gameHistory (gameState closure))
      in c\<lparr>localStorage := \<lparr>snakeHighScore = Some newHighScore,
                              snakeGameHistory = Some updatedHistory\<rparr>,
           gameState := (gameState c)\<lparr>highScore := newHighScore,
                                       gameHistory := updatedHistory\<rparr>\<rparr>)"

section \<open>One tick: \<open>gameLoop\<close>\<close>

text \<open>The \<open>switch\<close> on \<open>prev.direction\<close>; any other string leaves the head where it is.\<close>

definition move_head :: "string \<Rightarrow> Position \<Rightarrow> Position" where
  "move_head dir head =
     (if dir = ''UP'' then head\<lparr>y := y head - 1\<rparr>
      else if dir = ''DOWN'' then head\<lparr>y := y head + 1\<rparr>
      else if dir = ''LEFT'' then head\<lparr>x := x head - 1\<rparr>
      else if dir = ''RIGHT'' then head\<lparr>x := x head + 1\<rparr>
      else head)"

text \<open>
  The function passed to \<open>setGameState\<close> in \<open>gameLoop\<close>. It returns the next state
  together with the calls of \<open>saveGameData\<close> it made, as pairs of score and level, and
  \<open>None\<close> when \<open>generateFood\<close> does not return. The sound played on eating has no
  effect on the state and is left out.

  With an empty snake, \<open>newSnake[0]\<close> is \<open>undefined\<close>, the head is an object whose
  moved coordinate is \<open>NaN\<close>, every comparison is false, and the head is pushed and
  popped again: the state returned equals \<open>prev\<close>.
\<close>

definition gameLoop_update ::
  "(nat \<Rightarrow> rat) \<Rightarrow> GameState \<Rightarrow> (GameState \<times> (int \<times> int) list) option" where
  "gameLoop_update rnd prev =
     (case snake prev of
        [] \<Rightarrow> Some (prev, [])
      | h # _ \<Rightarrow>
          (let newSnake = snake prev;
               head = move_head (direction prev) h
           in if x head < 0 \<or> x head \<ge> GRID_SIZE \<or> y head < 0 \<or> y head \<ge> GRID_SIZE
              then Some (prev\<lparr>gameOver := True\<rparr>, [(GameState.score prev, GameState.level prev)])
              else if list_ex (\<lambda>segment. x segment = x head \<and> y segment = y head) newSnake
              then Some (prev\<lparr>gameOver := True\<rparr>, [(GameState.score prev, GameState.level prev)])
              else
                (let newSnake = head # newSnake
                 in if x head = x (food prev) \<and> y head = y (food prev)
                    then (case generateFood rnd newSnake of
                            None \<Rightarrow> None
                          | Some newFood \<Rightarrow>
                              (let newScore = GameState.score prev + 10;
                                   newLevel = newScore div 100 + 1
                               in Some (prev\<lparr>snake := newSnake, food := newFood,
                                             score := newScore, level := newLevel\<rparr>, [])))
                    else Some (prev\<lparr>snake := butlast newSnake, food := food prev,
                                    score := GameState.score prev,
                                    level := GameState.level prev\<rparr>, []))))"

text \<open>
  \<open>gameLoop\<close> itself: nothing happens when the game is over or paused; otherwise the
  state update is made. \<open>saveGameData\<close> runs inside that update: its two writes to
  storage always happen, but the state update it queues is a second \<open>setGameState\<close>
  made while the first one is being computed, and React treats it in one of two ways.
  When no update is pending, React computes the state of each update at once, from the
  state as rendered, and the outer update, processed last, replaces the state the inner
  one produced: \<open>highScore\<close> and \<open>gameHistory\<close> stay as they were (\<open>eager\<close>). Otherwise the
  updater runs while rendering and the inner update is applied to its result. Which of
  the two happens is not decided by the component; \<open>eager\<close> is a parameter of the tick.
\<close>

definition gameLoop :: "bool \<Rightarrow> (nat \<Rightarrow> rat) \<Rightarrow> string \<Rightarrow> Component \<Rightarrow> Component option" where
  "gameLoop eager rnd today c =
     (if gameOver (gameState c) \<or> paused (gameState c) then Some c
      else case gameLoop_update rnd (gameState c) of
             None \<Rightarrow> None
           | Some (g, saves) \<Rightarrow>
               (let c' = fold (\<lambda>(s, l). saveGameData today c s l) saves (c\<lparr>gameState := g\<rparr>)
                in Some (if eager then c'\<lparr>gameState := g\<rparr> else c')))"

text \<open>
  The interval that calls \<open>gameLoop\<close> exists only while the game is started, not over and
  not paused.
\<close>

definition timer_tick :: "bool \<Rightarrow> (nat \<Rightarrow> rat) \<Rightarrow> string \<Rightarrow> Component \<Rightarrow> Component option" where
  "timer_tick eager rnd today c =
     (if gameStarted c \<and> \<not> gameOver (gameState c) \<and> \<not> paused (gameState c)
      then gameLoop eager rnd today c else Some c)"

section \<open>Commands\<close>

definition togglePause :: "Component \<Rightarrow> Component" where
  "togglePause c =
     (if gameStarted c \<and> \<not> gameOver (gameState c)
      then c\<lparr>gameState := (gameState c)\<lparr>paused := \<not> paused (gameState c)\<rparr>\<rparr>
      else c)"

definition handleKeyPress :: "string \<Rightarrow> Component \<Rightarrow> Component" where
  "handleKeyPress key c =
     (if \<not> gameStarted c \<or> gameOver (gameState c) then c
      else if key = ''ArrowUp'' then
        (if direction (gameState c) \<noteq> ''DOWN''
         then c\<lparr>gameState := (gameState c)\<lparr>direction := ''UP''\<rparr>\<rparr> else c)
      else if key = ''ArrowDown'' then
        (if direction (gameState c) \<noteq> ''UP''
         then c\<lparr>gameState := (gameState c)\<lparr>direction := ''DOWN''\<rparr>\<rparr> else c)
      else if key = ''ArrowLeft'' then
        (if direction (gameState c) \<noteq> ''RIGHT''
         then c\<lparr>gameState := (gameState c)\<lparr>direction := ''LEFT''\<rparr>\<rparr> else c)
      else if key = ''ArrowRight'' then
        (if direction (gameState c) \<noteq> ''LEFT''
         then c\<lparr>gameState := (gameState c)\<lparr>direction := ''RIGHT''\<rparr>\<rparr> else c)
      else if key = '' '' then togglePause c
      else c)"

definition startGame :: "(nat \<Rightarrow> rat) \<Rightarrow> Component \<Rightarrow> Component option" where
  "startGame rnd c =
     (case generateFood rnd INITIAL_SNAKE of
        None \<Rightarrow> None
      | Some newFood \<Rightarrow>
          Some (c\<lparr>gameState :=
                    \<lparr>snake = INITIAL_SNAKE, food = newFood, direction = ''RIGHT'',
                     gameOver = False, paused = False, score = 0, level = 1,
                     highScore = highScore (gameState c),
                     gameHistory = gameHistory (gameState c)\<rparr>,
                  gameStarted := True, showSettings := False\<rparr>))"

definition resetGame :: "Component \<Rightarrow> Component" where
  "resetGame c =
     c\<lparr>gameStarted := False,
       gameState := (gameState c)\<lparr>snake := INITIAL_SNAKE, food := INITIAL_FOOD,
                                   direction := ''RIGHT'', gameOver := False,
                                   paused := False, score := 0, level := 1\<rparr>\<rparr>"

section \<open>Reachable states\<close>

text \<open>
  The component as mounted: the initial \<open>useState\<close> values, with the high score and
  the history read from storage when the keys are present.
\<close>

definition mount :: "Storage \<Rightarrow> Component" where
  "mount st =
     \<lparr>gameState =
        \<lparr>snake = INITIAL_SNAKE, food = INITIAL_FOOD, direction = ''RIGHT'',
         gameOver = False, paused = False, score = 0, level = 1,
         highScore = (case snakeHighScore st of None \<Rightarrow> 0 | Some savedHighScore \<Rightarrow> savedHighScore),
         gameHistory = (case snakeGameHistory st of None \<Rightarrow> [] | Some savedHistory \<Rightarrow> savedHistory)\<rparr>,
      difficulty = medium, gameStarted = False, showSettings = False,
      soundEnabled = True, showHistory = False, localStorage = st\<rparr>"

text \<open>
  The states the component can be in: each rule is one event, handled to completion
  before the next. The start button is rendered only while the game is not started;
  the difficulty buttons only while the settings panel is shown.
\<close>

inductive reachable :: "Component \<Rightarrow> bool" where
  r_mount: "reachable (mount st)"
| r_tick: "reachable c \<Longrightarrow> valid_random rnd \<Longrightarrow> timer_tick eager rnd today c = Some c' \<Longrightarrow>
           reachable c'"
| r_key: "reachable c \<Longrightarrow> reachable (handleKeyPress key c)"
| r_start: "reachable c \<Longrightarrow> \<not> gameStarted c \<Longrightarrow> valid_random rnd \<Longrightarrow>
            startGame rnd c = Some c' \<Longrightarrow> reachable c'"
| r_pause: "reachable c \<Longrightarrow> gameStarted c \<Longrightarrow> reachable (togglePause c)"
| r_reset: "reachable c \<Longrightarrow> reachable (resetGame c)"
| r_settings: "reachable c \<Longrightarrow> reachable (c\<lparr>showSettings := \<not> showSettings c\<rparr>)"
| r_history: "reachable c \<Longrightarrow> reachable (c\<lparr>showHistory := \<not> showHistory c\<rparr>)"
| r_sound: "reachable c \<Longrightarrow> reachable (c\<lparr>soundEnabled := \<not> soundEnabled c\<rparr>)"
| r_difficulty: "reachable c \<Longrightarrow> showSettings c \<Longrightarrow> reachable (c\<lparr>Component.difficulty := d\<rparr>)"

text \<open>The negation of the wall test of \<open>gameLoop\<close>: the cell lies on the board.\<close>

definition in_grid :: "Position \<Rightarrow> bool" where
  "in_grid p \<longleftrightarrow> \<not> (x p < 0 \<or> x p \<ge> GRID_SIZE \<or> y p < 0 \<or> y p \<ge> GRID_SIZE)"

text \<open>What holds of the game state in every reachable state (shown below).\<close>

definition well_formed :: "GameState \<Rightarrow> bool" where
  "well_formed g \<longleftrightarrow>
     snake g \<noteq> [] \<and> distinct (snake g) \<and> food g \<notin> set (snake g) \<and> in_grid (food g) \<and>
     list_all in_grid (snake g) \<and>
     GameState.level g = GameState.score g div 100 + 1 \<and>
     0 \<le> GameState.score g \<and> GameState.score g mod 10 = 0 \<and>
     direction g \<in> {''UP'', ''DOWN'', ''LEFT'', ''RIGHT''}"

section \<open>Concrete inputs\<close>

text \<open>A snake that covers the whole board, row by row, and a random source that always returns 0.\<close>

definition full_board :: "Position list" where
  "full_board =
     concat (map (\<lambda>j. map (\<lambda>i. \<lparr>x = i, y = j\<rparr>) [0..GRID_SIZE - 1]) [0..GRID_SIZE - 1])"

definition zero_random :: "nat \<Rightarrow> rat" where
  "zero_random k = 0"

text \<open>
  A random source whose first three pairs give the cells (10, 10), (11, 10) and (3, 7),
  and (3, 7) ever after.
\<close>

definition sample_random :: "nat \<Rightarrow> rat" where
  "sample_random k =
     (if k < 2 then 1 / 2 else if k = 2 then 11 / 20 else if k = 3 then 1 / 2
      else if even k then 3 / 20 else 7 / 20)"

definition empty_storage :: Storage where
  "empty_storage = \<lparr>snakeHighScore = None, snakeGameHistory = None\<rparr>"

text \<open>
  The game started from the mounted component with \<open>sample_random\<close>: the first draw hits
  the snake, the second gives the food at (11, 10), right in front of the head.
\<close>

definition fresh_game :: Component where
  "fresh_game =
     \<lparr>gameState =
        \<lparr>snake = [\<lparr>x = 10, y = 10\<rparr>], food = \<lparr>x = 11, y = 10\<rparr>, direction = ''RIGHT'',
         gameOver = False, paused = False, score = 0, level = 1,
         highScore = 0, gameHistory = []\<rparr>,
      difficulty = medium, gameStarted = True, showSettings = False,
      soundEnabled = True, showHistory = False, localStorage = empty_storage\<rparr>"

text \<open>One tick later, the food eaten and the next one placed at (3, 7).\<close>

definition after_meal :: Component where
  "after_meal =
     fresh_game\<lparr>gameState := (gameState fresh_game)
        \<lparr>snake := [\<lparr>x = 11, y = 10\<rparr>, \<lparr>x = 10, y = 10\<rparr>], food := \<lparr>x = 3, y = 7\<rparr>,
         score := 10, level := 1\<rparr>\<rparr>"

text \<open>A game one meal short of level 2: \<open>fresh_game\<close> with a score of 90.\<close>

definition level_up_game :: Component where
  "level_up_game = fresh_game\<lparr>gameState := (gameState fresh_game)\<lparr>score := 90\<rparr>\<rparr>"

text \<open>A one-cell snake at the left edge, heading left, with a score of 20.\<close>

definition at_left_wall :: Component where
  "at_left_wall =
     fresh_game\<lparr>gameState := (gameState fresh_game)
        \<lparr>snake := [\<lparr>x = 0, y = 10\<rparr>], direction := ''LEFT'', score := 20\<rparr>\<rparr>"

text \<open>
  A snake of four cells curled in a square, its head at (5, 5) about to move down onto
  its own tail at (5, 6).
\<close>

definition tail_chase :: Component where
  "tail_chase =
     fresh_game\<lparr>gameState := (gameState fresh_game)
        \<lparr>snake := [\<lparr>x = 5, y = 5\<rparr>, \<lparr>x = 6, y = 5\<rparr>, \<lparr>x = 6, y = 6\<rparr>, \<lparr>x = 5, y = 6\<rparr>],
         direction := ''DOWN'', score := 30\<rparr>\<rparr>"

text \<open>A random source every pair of which gives the cell \<open>p\<close>.\<close>

definition aim :: "Position \<Rightarrow> nat \<Rightarrow> rat" where
  "aim p k = (if even k then of_int (x p) / 20 else of_int (y p) / 20)"

text \<open>
  A game that fills the board. The game starts with the food at (1, 0); the one-cell
  snake walks up, left and up again to the corner (0, 0) without meeting it (\<open>walk\<close>).
  From there it follows \<open>path\<close>, which runs through the rows in turn, the even ones
  rightwards and the odd ones leftwards, and every tick finds the next food on the next
  cell of the path: in \<open>hunt d k\<close> the snake lies on the cells \<open>path 0\<close> to \<open>path k\<close>,
  head at \<open>path k\<close>, the food is at \<open>path (k + 1)\<close> and the score is \<open>10 * k\<close>.
  \<open>heading k\<close> is the direction from \<open>path k\<close> to \<open>path (k + 1)\<close>.
\<close>

definition walk :: "string \<Rightarrow> Position \<Rightarrow> Component" where
  "walk d p =
     fresh_game\<lparr>gameState := (gameState fresh_game)
        \<lparr>snake := [p], food := \<lparr>x = 1, y = 0\<rparr>, direction := d\<rparr>\<rparr>"

definition path :: "nat \<Rightarrow> Position" where
  "path k =
     \<lparr>x = (if even (k div 20) then int (k mod 20) else 19 - int (k mod 20)),
      y = int (k div 20)\<rparr>"

definition heading :: "nat \<Rightarrow> string" where
  "heading k =
     (if k mod 20 = 19 then ''DOWN'' else if even (k div 20) then ''RIGHT'' else ''LEFT'')"

definition hunt :: "string \<Rightarrow> nat \<Rightarrow> Component" where
  "hunt d k =
     fresh_game\<lparr>gameState := (gameState fresh_game)
        \<lparr>snake := map path (rev [0..<Suc k]), food := path (Suc k), direction := d,
         score := 10 * int k, level := 10 * int k div 100 + 1\<rparr>\<rparr>"

text \<open>
  The walking snake in the corner (0, 0), heading up into the wall, and the state one
  tick later on the day \<open>2024-01-01\<close> when the update queued by \<open>saveGameData\<close> is
  applied.
\<close>

definition at_corner :: Component where
  "at_corner = walk ''UP'' \<lparr>x = 0, y = 0\<rparr>"

definition lost_at_corner :: Component where
  "lost_at_corner =
     at_corner
       \<lparr>gameState := (gameState at_corner)
          \<lparr>gameOver := True, highScore := 0,
           gameHistory := [\<lparr>GameRecord.score = 0, GameRecord.level = 1,
                            date = ''2024-01-01'', difficulty = ''Medium''\<rparr>]\<rparr>,
        localStorage :=
          \<lparr>snakeHighScore = Some 0,
           snakeGameHistory = Some [\<lparr>GameRecord.score = 0, GameRecord.level = 1,
                                     date = ''2024-01-01'', difficulty = ''Medium''\<rparr>]\<rparr>\<rparr>"

text \<open>
  \<open>after_meal\<close> once the keys Up and Left have been pressed, in this order, before the
  next tick: the snake that has just moved right is now to move left.
\<close>

definition turned_round :: Component where
  "turned_round = after_meal\<lparr>gameState := (gameState after_meal)\<lparr>direction := ''LEFT''\<rparr>\<rparr>"

section \<open>Food placement: what the loop returns\<close>

lemma list_ex_cell:
  "list_ex (\<lambda>segment. x segment = x c \<and> y segment = y c) body = (c \<in> set (body::Position list))"
proof -
  have "\<And>s. (x s = x c \<and> y s = y c) \<longleftrightarrow> s = c" by auto
  then show ?thesis by (simp add: list_ex_iff)
qed

lemma loop_unfold:
  "generateFood_loop rnd i body =
     (if draw rnd i \<in> set body then generateFood_loop rnd (i + 2) body else Some (draw rnd i))"
  by (subst generateFood_loop.simps) (simp add: list_ex_cell Let_def)

lemma loop_returns:
  "(\<forall>m<n. draw rnd (i + 2 * m) \<in> set body) \<Longrightarrow> draw rnd (i + 2 * n) \<notin> set body \<Longrightarrow>
   generateFood_loop rnd i body = Some (draw rnd (i + 2 * n))"
proof (induction n arbitrary: i)
  case 0
  then show ?case by (subst loop_unfold) simp
next
  case (Suc n)
  have a: "draw rnd i \<in> set body" using Suc.prems(1)[rule_format, of 0] by simp
  have "generateFood_loop rnd (i + 2) body = Some (draw rnd (i + 2 + 2 * n))"
  proof (rule Suc.IH)
    show "\<forall>m<n. draw rnd (i + 2 + 2 * m) \<in> set body"
      using Suc.prems(1) by (auto dest: spec[of _ "Suc _"])
    show "draw rnd (i + 2 + 2 * n) \<notin> set body" using Suc.prems(2) by simp
  qed
  then show ?case using a by (subst loop_unfold) simp
qed

lemma loop_result:
  assumes "generateFood_loop rnd i body = Some c"
  shows "c \<notin> set body \<and> (\<exists>n. c = draw rnd (i + 2 * n))"
proof (rule generateFood_loop.raw_induct
    [where P = "\<lambda>rnd i body c. c \<notin> set body \<and> (\<exists>n. c = draw rnd (i + 2 * n))", OF _ assms])
  fix f :: "(nat \<Rightarrow> rat) \<Rightarrow> nat \<Rightarrow> Position list \<Rightarrow> Position option"
  fix rnd i body c
  assume IH: "\<And>rnd i body c. f rnd i body = Some c \<Longrightarrow>
                c \<notin> set body \<and> (\<exists>n. c = draw rnd (i + 2 * n))"
    and eq: "(let newFood = draw rnd i in
              if list_ex (\<lambda>segment. x segment = x newFood \<and> y segment = y newFood) body
              then f rnd (i + 2) body else Some newFood) = Some c"
  show "c \<notin> set body \<and> (\<exists>n. c = draw rnd (i + 2 * n))"
  proof (cases "draw rnd i \<in> set body")
    case True
    then have "f rnd (i + 2) body = Some c" using eq by (simp add: list_ex_cell Let_def)
    from IH[OF this] obtain n :: nat where "c \<notin> set body" "c = draw rnd (i + 2 + 2 * n)" by blast
    then have "c = draw rnd (i + 2 * Suc n)" by simp
    with \<open>c \<notin> set body\<close> show ?thesis by blast
  next
    case False
    then have "c = draw rnd i" using eq by (simp add: list_ex_cell Let_def)
    with False show ?thesis by (intro conjI exI[of _ 0]) simp_all
  qed
qed

lemma loop_never:
  assumes "\<forall>n. draw rnd (i + 2 * n) \<in> set body"
  shows "generateFood_loop rnd i body = None"
proof (cases "generateFood_loop rnd i body")
  case None
  then show ?thesis .
next
  case (Some c)
  from loop_result[OF this] assms show ?thesis by blast
qed

lemma draw_in_grid:
  assumes "valid_random rnd"
  shows "in_grid (draw rnd i)"
proof -
  have r: "\<And>r::rat. 0 \<le> r \<Longrightarrow> r < 1 \<Longrightarrow> 0 \<le> \<lfloor>r * 20\<rfloor> \<and> \<lfloor>r * 20\<rfloor> < 20"
    by (simp add: floor_less_iff)
  have "0 \<le> rnd i" "rnd i < 1" "0 \<le> rnd (Suc i)" "rnd (Suc i) < 1"
    using assms by (simp_all add: valid_random_def)
  then show ?thesis using r[of "rnd i"] r[of "rnd (Suc i)"]
    by (simp add: draw_def GRID_SIZE_def in_grid_def not_le not_less)
qed

lemma generateFood_result:
  assumes "generateFood rnd body = Some c"
  shows "c \<notin> set body" and "valid_random rnd \<Longrightarrow> in_grid c"
  using loop_result[OF assms[unfolded generateFood_def]] draw_in_grid by auto

lemma generateFood_returns:
  assumes "\<exists>n. draw rnd (2 * n) \<notin> set body"
  shows "\<exists>c. generateFood rnd body = Some c \<and> c \<notin> set body"
proof -
  define k where "k = (LEAST n. draw rnd (2 * n) \<notin> set body)"
  from assms obtain n where "draw rnd (2 * n) \<notin> set body" ..
  then have "draw rnd (2 * k) \<notin> set body"
    unfolding k_def by (rule LeastI[where P = "\<lambda>n. draw rnd (2 * n) \<notin> set body"])
  then have a: "draw rnd (0 + 2 * k) \<notin> set body" by simp
  have "draw rnd (2 * m) \<in> set body" if "m < k" for m
    using not_less_Least[where P = "\<lambda>n. draw rnd (2 * n) \<notin> set body", OF that[unfolded k_def]]
    by simp
  then have b: "\<forall>m<k. draw rnd (0 + 2 * m) \<in> set body" by simp
  from loop_returns[OF b a] a show ?thesis by (simp add: generateFood_def)
qed

section \<open>One tick, case by case\<close>

lemma wall_test: "(x p < 0 \<or> x p \<ge> GRID_SIZE \<or> y p < 0 \<or> y p \<ge> GRID_SIZE) = (\<not> in_grid p)"
  by (simp add: in_grid_def)

lemma food_test: "(x p = x q \<and> y p = y q) = (p = (q::Position))"
  by auto

lemma gameLoop_update_Cons:
  assumes "snake prev = h # t"
  shows "gameLoop_update rnd prev =
     (if \<not> in_grid (move_head (direction prev) h)
      then Some (prev\<lparr>gameOver := True\<rparr>, [(GameState.score prev, GameState.level prev)])
      else if move_head (direction prev) h \<in> set (snake prev)
      then Some (prev\<lparr>gameOver := True\<rparr>, [(GameState.score prev, GameState.level prev)])
      else if move_head (direction prev) h = food prev
      then (case generateFood rnd (move_head (direction prev) h # snake prev) of
              None \<Rightarrow> None
            | Some newFood \<Rightarrow>
                Some (prev\<lparr>snake := move_head (direction prev) h # snake prev, food := newFood,
                           score := GameState.score prev + 10,
                           level := (GameState.score prev + 10) div 100 + 1\<rparr>, []))
      else Some (prev\<lparr>snake := move_head (direction prev) h # butlast (snake prev)\<rparr>, []))"
proof -
  have b: "butlast (p # snake prev) = p # butlast (snake prev)" for p
    using assms by simp
  have r: "prev\<lparr>snake := s, food := food prev, score := GameState.score prev,
                level := GameState.level prev\<rparr> = prev\<lparr>snake := s\<rparr>" for s
    by simp
  have e: "list_ex (\<lambda>segment. segment = p) body = (p \<in> set body)" for p :: Position and body
    by (auto simp: list_ex_iff)
  show ?thesis
    unfolding gameLoop_update_def Let_def wall_test food_test e b r
    by (simp only: assms list.case)
qed

text \<open>What a collision leaves behind: the storage written, and the state on each of the two paths.\<close>

lemma gameLoop_collision:
  assumes "\<not> gameOver (gameState c)" "\<not> paused (gameState c)" "snake (gameState c) = h # t"
    and "\<not> in_grid (move_head (direction (gameState c)) h) \<or>
         move_head (direction (gameState c)) h \<in> set (snake (gameState c))"
  shows "gameLoop eager rnd today c =
     Some (c\<lparr>gameState :=
               (if eager then (gameState c)\<lparr>gameOver := True\<rparr>
                else (gameState c)
                  \<lparr>gameOver := True,
                   highScore := max (highScore (gameState c)) (GameState.score (gameState c)),
                   gameHistory :=
                     take 10 (\<lparr>GameRecord.score = GameState.score (gameState c),
                                GameRecord.level = GameState.level (gameState c),
                                date = today,
                                difficulty = DIFFICULTIES_name (Component.difficulty c)\<rparr>
                              # gameHistory (gameState c))\<rparr>),
             localStorage :=
               \<lparr>snakeHighScore =
                  Some (max (highScore (gameState c)) (GameState.score (gameState c))),
                snakeGameHistory =
                  Some (take 10 (\<lparr>GameRecord.score = GameState.score (gameState c),
                                   GameRecord.level = GameState.level (gameState c),
                                   date = today,
                                   difficulty = DIFFICULTIES_name (Component.difficulty c)\<rparr>
                                 # gameHistory (gameState c)))\<rparr>\<rparr>)"
proof -
  have "gameLoop_update rnd (gameState c) =
          Some ((gameState c)\<lparr>gameOver := True\<rparr>,
                [(GameState.score (gameState c), GameState.level (gameState c))])"
    using assms(4) unfolding gameLoop_update_Cons[OF assms(3)] by auto
  then show ?thesis using assms(1,2) by (simp add: gameLoop_def saveGameData_def Let_def)
qed

lemma gameLoop_eat:
  assumes "\<not> gameOver (gameState c)" "\<not> paused (gameState c)" "snake (gameState c) = h # t"
    and "in_grid (move_head (direction (gameState c)) h)"
    and "move_head (direction (gameState c)) h \<notin> set (snake (gameState c))"
    and "move_head (direction (gameState c)) h = food (gameState c)"
  shows "gameLoop eager rnd today c =
     (case generateFood rnd (move_head (direction (gameState c)) h # snake (gameState c)) of
        None \<Rightarrow> None
      | Some newFood \<Rightarrow>
          Some (c\<lparr>gameState := (gameState c)
                  \<lparr>snake := move_head (direction (gameState c)) h # snake (gameState c),
                   food := newFood,
                   score := GameState.score (gameState c) + 10,
                   level := (GameState.score (gameState c) + 10) div 100 + 1\<rparr>\<rparr>))"
proof -
  have "gameLoop_update rnd (gameState c) =
     (case generateFood rnd (move_head (direction (gameState c)) h # snake (gameState c)) of
        None \<Rightarrow> None
      | Some newFood \<Rightarrow>
          Some ((gameState c)
                  \<lparr>snake := move_head (direction (gameState c)) h # snake (gameState c),
                   food := newFood,
                   score := GameState.score (gameState c) + 10,
                   level := (GameState.score (gameState c) + 10) div 100 + 1\<rparr>, []))"
    unfolding gameLoop_update_Cons[OF assms(3)] using assms(4,5,6) by simp
  then show ?thesis using assms(1,2) by (simp add: gameLoop_def Let_def split: option.splits)
qed

lemma gameLoop_move:
  assumes "\<not> gameOver (gameState c)" "\<not> paused (gameState c)" "snake (gameState c) = h # t"
    and "in_grid (move_head (direction (gameState c)) h)"
    and "move_head (direction (gameState c)) h \<notin> set (snake (gameState c))"
    and "move_head (direction (gameState c)) h \<noteq> food (gameState c)"
  shows "gameLoop eager rnd today c =
     Some (c\<lparr>gameState := (gameState c)
             \<lparr>snake := move_head (direction (gameState c)) h # butlast (snake (gameState c))\<rparr>\<rparr>)"
proof -
  have "gameLoop_update rnd (gameState c) =
     Some ((gameState c)
             \<lparr>snake := move_head (direction (gameState c)) h # butlast (snake (gameState c))\<rparr>, [])"
    unfolding gameLoop_update_Cons[OF assms(3)] using assms(4,5,6) by simp
  then show ?thesis using assms(1,2) by (simp add: gameLoop_def Let_def)
qed

lemma gameLoop_cases [consumes 1, case_names idle empty collision eat move]:
  assumes "gameLoop eager rnd today c = Some c'"
  obtains
    (idle) "gameOver (gameState c) \<or> paused (gameState c)" "c' = c"
  | (empty) "\<not> gameOver (gameState c)" "\<not> paused (gameState c)" "snake (gameState c) = []" "c' = c"
  | (collision) h t where "\<not> gameOver (gameState c)" "\<not> paused (gameState c)"
      "snake (gameState c) = h # t"
      "\<not> in_grid (move_head (direction (gameState c)) h) \<or>
       move_head (direction (gameState c)) h \<in> set (snake (gameState c))"
      "gameState c' = (gameState c)\<lparr>gameOver := True\<rparr> \<or>
       gameState c' = (gameState c)
          \<lparr>gameOver := True,
           highScore := max (highScore (gameState c)) (GameState.score (gameState c)),
           gameHistory :=
             take 10 (\<lparr>GameRecord.score = GameState.score (gameState c),
                        GameRecord.level = GameState.level (gameState c),
                        date = today,
                        difficulty = DIFFICULTIES_name (Component.difficulty c)\<rparr>
                      # gameHistory (gameState c))\<rparr>"
  | (eat) h t newFood where "\<not> gameOver (gameState c)" "\<not> paused (gameState c)"
      "snake (gameState c) = h # t"
      "in_grid (move_head (direction (gameState c)) h)"
      "move_head (direction (gameState c)) h \<notin> set (snake (gameState c))"
      "move_head (direction (gameState c)) h = food (gameState c)"
      "generateFood rnd (move_head (direction (gameState c)) h # snake (gameState c)) = Some newFood"
      "c' = c\<lparr>gameState := (gameState c)
                  \<lparr>snake := move_head (direction (gameState c)) h # snake (gameState c),
                   food := newFood,
                   score := GameState.score (gameState c) + 10,
                   level := (GameState.score (gameState c) + 10) div 100 + 1\<rparr>\<rparr>"
  | (move) h t where "\<not> gameOver (gameState c)" "\<not> paused (gameState c)"
      "snake (gameState c) = h # t"
      "in_grid (move_head (direction (gameState c)) h)"
      "move_head (direction (gameState c)) h \<notin> set (snake (gameState c))"
      "move_head (direction (gameState c)) h \<noteq> food (gameState c)"
      "c' = c\<lparr>gameState := (gameState c)
             \<lparr>snake := move_head (direction (gameState c)) h # butlast (snake (gameState c))\<rparr>\<rparr>"
proof (cases "gameOver (gameState c) \<or> paused (gameState c)")
  case True
  then have "c' = c" using assms by (simp add: gameLoop_def)
  with True show ?thesis by (rule idle)
next
  case False
  then have run: "\<not> gameOver (gameState c)" "\<not> paused (gameState c)" by simp_all
  show ?thesis
  proof (cases "snake (gameState c)")
    case Nil
    then have "c' = c" using assms run
      by (cases eager) (auto simp: gameLoop_def gameLoop_update_def Let_def)
    with run Nil show ?thesis by (rule empty)
  next
    case (Cons h t)
    let ?head = "move_head (direction (gameState c)) h"
    consider (a) "\<not> in_grid ?head \<or> ?head \<in> set (snake (gameState c))"
      | (b) "in_grid ?head" "?head \<notin> set (snake (gameState c))" "?head = food (gameState c)"
      | (c) "in_grid ?head" "?head \<notin> set (snake (gameState c))" "?head \<noteq> food (gameState c)"
      by blast
    then show ?thesis
    proof cases
      case a
      from assms[unfolded gameLoop_collision[OF run Cons a]]
      show ?thesis using collision[OF run Cons a] by (cases eager) auto
    next
      case b
      from assms[unfolded gameLoop_eat[OF run Cons b]]
      show ?thesis using eat[OF run Cons b] by (auto split: option.splits)
    next
      case c
      from assms[unfolded gameLoop_move[OF run Cons c]]
      show ?thesis using move[OF run Cons c] by simp
    qed
  qed
qed

lemma well_formed_update:
  assumes wf: "well_formed prev" and rnd: "valid_random rnd"
    and step: "gameLoop_update rnd prev = Some (g, saves)"
  shows "well_formed g"
proof -
  from wf obtain h t where ht: "snake prev = h # t"
    by (cases "snake prev") (auto simp: well_formed_def)
  let ?head = "move_head (direction prev) h"
  note st = step[unfolded gameLoop_update_Cons[OF ht]]
  consider (hit) "\<not> in_grid ?head \<or> ?head \<in> set (snake prev)"
    | (eat) "in_grid ?head" "?head \<notin> set (snake prev)" "?head = food prev"
    | (move) "in_grid ?head" "?head \<notin> set (snake prev)" "?head \<noteq> food prev"
    by blast
  then show ?thesis
  proof cases
    case hit
    then have "g = prev\<lparr>gameOver := True\<rparr>" using st by (auto split: if_splits)
    then show ?thesis using wf by (simp add: well_formed_def)
  next
    case eat
    then obtain newFood where nf: "generateFood rnd (?head # snake prev) = Some newFood"
      and g: "g = prev\<lparr>snake := ?head # snake prev, food := newFood,
                           score := GameState.score prev + 10,
                           level := (GameState.score prev + 10) div 100 + 1\<rparr>"
      using st by (auto split: option.splits)
    from generateFood_result[OF nf] rnd have "newFood \<notin> set (?head # snake prev)" "in_grid newFood"
      by auto
    then show ?thesis using wf eat unfolding g well_formed_def
      by simp
  next
    case move
    then have g: "g = prev\<lparr>snake := ?head # butlast (snake prev)\<rparr>" using st by (auto split: if_splits)
    have "set (butlast (snake prev)) \<subseteq> set (snake prev)" by (auto dest: in_set_butlastD)
    moreover have "distinct (butlast (snake prev))" using wf by (simp add: well_formed_def distinct_butlast)
    moreover have "list_all in_grid (butlast (snake prev))"
      using wf by (auto simp: well_formed_def list_all_iff dest: in_set_butlastD)
    ultimately show ?thesis using wf move unfolding g well_formed_def
      by auto
  qed
qed



section \<open>The state stays well formed\<close>

lemma gameState_saveGameData:
  "gameState (saveGameData today cl s l c) =
     (gameState c)\<lparr>highScore := max (highScore (gameState cl)) s,
                    gameHistory := take 10 (\<lparr>GameRecord.score = s, GameRecord.level = l, date = today,
                       difficulty = DIFFICULTIES_name (Component.difficulty cl)\<rparr> # gameHistory (gameState cl))\<rparr>"
  by (simp add: saveGameData_def Let_def)

lemma well_formed_frame:
  "well_formed (g\<lparr>highScore := a\<rparr>) = well_formed g"
  "well_formed (g\<lparr>gameHistory := b\<rparr>) = well_formed g"
  "well_formed (g\<lparr>gameOver := v\<rparr>) = well_formed g"
  "well_formed (g\<lparr>paused := v\<rparr>) = well_formed g"
  unfolding well_formed_def by simp_all

lemma well_formed_saves:
  "well_formed (gameState (fold (\<lambda>(s, l). saveGameData today cl s l) saves c)) =
   well_formed (gameState c)"
proof (induction saves arbitrary: c)
  case Nil
  show ?case by simp
next
  case (Cons a saves)
  obtain s l where a: "a = (s, l)" by (cases a)
  show ?case
    by (simp only: a fold_simps prod.case Cons.IH gameState_saveGameData well_formed_frame)
qed

lemma well_formed_gameLoop:
  assumes "well_formed (gameState c)" "valid_random rnd" "gameLoop eager rnd today c = Some c'"
  shows "well_formed (gameState c')"
proof (cases "gameOver (gameState c) \<or> paused (gameState c)")
  case True
  then have "c' = c" using assms(3) by (simp add: gameLoop_def)
  then show ?thesis using assms(1) by simp
next
  case False
  then obtain g saves where u: "gameLoop_update rnd (gameState c) = Some (g, saves)"
    and c': "c' = (if eager
                   then (fold (\<lambda>(s, l). saveGameData today c s l) saves (c\<lparr>gameState := g\<rparr>))
                          \<lparr>gameState := g\<rparr>
                   else fold (\<lambda>(s, l). saveGameData today c s l) saves (c\<lparr>gameState := g\<rparr>))"
    using assms(3) by (auto simp: gameLoop_def Let_def split: option.splits)
  from well_formed_update[OF assms(1,2) u] show ?thesis
    unfolding c' by (cases eager) (simp_all add: well_formed_saves)
qed

lemma handleKeyPress_cases:
  assumes "P c"
    and "\<And>d. d \<in> {''UP'', ''DOWN'', ''LEFT'', ''RIGHT''} \<Longrightarrow>
           P (c\<lparr>gameState := (gameState c)\<lparr>direction := d\<rparr>\<rparr>)"
    and "P (c\<lparr>gameState := (gameState c)\<lparr>paused := \<not> paused (gameState c)\<rparr>\<rparr>)"
  shows "P (handleKeyPress key c)"
proof -
  have d: "P (c\<lparr>gameState := (gameState c)\<lparr>direction := ''UP''\<rparr>\<rparr>)"
    "P (c\<lparr>gameState := (gameState c)\<lparr>direction := ''DOWN''\<rparr>\<rparr>)"
    "P (c\<lparr>gameState := (gameState c)\<lparr>direction := ''LEFT''\<rparr>\<rparr>)"
    "P (c\<lparr>gameState := (gameState c)\<lparr>direction := ''RIGHT''\<rparr>\<rparr>)"
    by (rule assms(2), simp)+
  show ?thesis
    unfolding handleKeyPress_def togglePause_def
    using assms(1,3) d by (simp only: if_split[where P = P] simp_thms)
qed

lemma well_formed_handleKeyPress:
  assumes "well_formed (gameState c)"
  shows "well_formed (gameState (handleKeyPress key c))"
  using assms
  by (intro handleKeyPress_cases[where P = "\<lambda>c. well_formed (gameState c)"])
     (auto simp: well_formed_def)

lemma well_formed_startGame:
  assumes "valid_random rnd" "startGame rnd c = Some c'"
  shows "well_formed (gameState c')"
proof -
  from assms(2) obtain newFood where nf: "generateFood rnd INITIAL_SNAKE = Some newFood"
    and c': "gameState c' = \<lparr>snake = INITIAL_SNAKE, food = newFood, direction = ''RIGHT'',
                     gameOver = False, paused = False, score = 0, level = 1,
                     highScore = highScore (gameState c),
                     gameHistory = gameHistory (gameState c)\<rparr>"
    by (auto simp: startGame_def split: option.splits)
  from generateFood_result[OF nf] assms(1) show ?thesis
    unfolding c' by (simp add: well_formed_def INITIAL_SNAKE_def in_grid_def GRID_SIZE_def)
qed

lemma well_formed_resetGame: "well_formed (gameState (resetGame c))"
  by (simp add: resetGame_def well_formed_def INITIAL_SNAKE_def INITIAL_FOOD_def in_grid_def GRID_SIZE_def)

lemma well_formed_mount: "well_formed (gameState (mount st))"
  by (simp add: mount_def well_formed_def INITIAL_SNAKE_def INITIAL_FOOD_def in_grid_def GRID_SIZE_def)

lemma reachable_well_formed: "reachable c \<Longrightarrow> well_formed (gameState c)"
proof (induction rule: reachable.induct)
  case (r_mount st)
  show ?case by (rule well_formed_mount)
next
  case (r_tick c rnd today c')
  then show ?case
    by (auto simp: timer_tick_def split: if_splits intro: well_formed_gameLoop)
next
  case (r_key c key)
  then show ?case by (simp add: well_formed_handleKeyPress)
next
  case (r_start c rnd c')
  then show ?case by (simp add: well_formed_startGame)
next
  case (r_pause c)
  then show ?case by (simp add: togglePause_def well_formed_frame)
next
  case (r_reset c)
  show ?case by (rule well_formed_resetGame)
qed simp_all


lemma food_off_snake_gameLoop:
  assumes "food (gameState c) \<notin> set (snake (gameState c))"
    and "gameLoop eager rnd today c = Some c'"
  shows "food (gameState c') \<notin> set (snake (gameState c'))"
  using assms(2)
proof (cases rule: gameLoop_cases)
  case idle
  then show ?thesis using assms(1) by simp
next
  case empty
  then show ?thesis using assms(1) by simp
next
  case (collision h t)
  then show ?thesis using assms(1) by auto
next
  case (eat h t newFood)
  from generateFood_result(1)[OF eat(7)] show ?thesis unfolding eat(8) by simp
next
  case (move h t)
  have "set (butlast (snake (gameState c))) \<subseteq> set (snake (gameState c))"
    by (auto dest: in_set_butlastD)
  then show ?thesis using assms(1) move(6) unfolding move(7) by auto
qed


section \<open>The concrete inputs, evaluated\<close>

lemma sample_random_valid: "valid_random sample_random"
  by (simp add: valid_random_def sample_random_def)

lemma sample_random_draws:
  "draw sample_random 0 = \<lparr>x = 10, y = 10\<rparr>"
  "draw sample_random 2 = \<lparr>x = 11, y = 10\<rparr>"
  "draw sample_random 4 = \<lparr>x = 3, y = 7\<rparr>"
  "draw sample_random (Suc (Suc 0)) = \<lparr>x = 11, y = 10\<rparr>"
  "draw sample_random (Suc (Suc (Suc (Suc 0)))) = \<lparr>x = 3, y = 7\<rparr>"
  by (simp_all add: draw_def sample_random_def GRID_SIZE_def)

lemma sample_food_start:
  "generateFood sample_random [\<lparr>x = 10, y = 10\<rparr>] = Some \<lparr>x = 11, y = 10\<rparr>"
  unfolding generateFood_def
  by (subst loop_unfold, simp add: sample_random_draws)
     (subst loop_unfold, simp add: sample_random_draws)

lemma sample_food_meal:
  "generateFood sample_random [\<lparr>x = 11, y = 10\<rparr>, \<lparr>x = 10, y = 10\<rparr>] = Some \<lparr>x = 3, y = 7\<rparr>"
  unfolding generateFood_def
  by (subst loop_unfold, simp add: sample_random_draws)
     (subst loop_unfold, simp add: sample_random_draws,
      subst loop_unfold, simp add: sample_random_draws)

lemma fresh_game_start: "startGame sample_random (mount empty_storage) = Some fresh_game"
  by (simp add: startGame_def sample_food_start mount_def fresh_game_def INITIAL_SNAKE_def empty_storage_def)

lemma fresh_game_reachable: "reachable fresh_game"
  by (rule r_start[OF r_mount _ sample_random_valid fresh_game_start]) (simp add: mount_def)

lemma fresh_game_tick: "gameLoop eager sample_random today fresh_game = Some after_meal"
proof -
  have "gameLoop eager sample_random today fresh_game =
     (case generateFood sample_random (move_head (direction (gameState fresh_game)) \<lparr>x = 10, y = 10\<rparr> # snake (gameState fresh_game)) of
        None \<Rightarrow> None
      | Some newFood \<Rightarrow>
          Some (fresh_game\<lparr>gameState := (gameState fresh_game)
                  \<lparr>snake := move_head (direction (gameState fresh_game)) \<lparr>x = 10, y = 10\<rparr> # snake (gameState fresh_game),
                   food := newFood,
                   score := GameState.score (gameState fresh_game) + 10,
                   level := (GameState.score (gameState fresh_game) + 10) div 100 + 1\<rparr>\<rparr>))"
    by (rule gameLoop_eat[where t = "[]"])
       (simp_all add: fresh_game_def move_head_def in_grid_def GRID_SIZE_def)
  also have "\<dots> = Some after_meal"
    by (simp add: fresh_game_def move_head_def sample_food_meal after_meal_def)
  finally show ?thesis .
qed

lemma after_meal_reachable: "reachable after_meal"
  by (rule r_tick[OF fresh_game_reachable sample_random_valid, of False "''2024-01-01''"])
     (simp add: timer_tick_def fresh_game_tick, simp add: fresh_game_def)


lemma zero_random_valid: "valid_random zero_random"
  by (simp add: valid_random_def zero_random_def)

lemma full_board_mem:
  "p \<in> set full_board \<longleftrightarrow> (\<exists>j\<in>{0..GRID_SIZE - 1}. \<exists>i\<in>{0..GRID_SIZE - 1}. p = \<lparr>x = i, y = j\<rparr>)"
proof -
  have "p \<in> set full_board \<longleftrightarrow>
     (\<exists>j\<in>{0..GRID_SIZE - 1}. p \<in> (\<lambda>i. \<lparr>x = i, y = j\<rparr>) ` {0..GRID_SIZE - 1})"
    unfolding full_board_def set_concat set_map set_upto image_image by (rule UN_iff)
  also have "\<dots> \<longleftrightarrow> (\<exists>j\<in>{0..GRID_SIZE - 1}. \<exists>i\<in>{0..GRID_SIZE - 1}. p = \<lparr>x = i, y = j\<rparr>)"
    unfolding image_iff ..
  finally show ?thesis .
qed

lemma full_board_set: "set full_board = Collect in_grid"
proof -
  have "p \<in> set full_board \<longleftrightarrow> in_grid p" for p
  proof
    assume "p \<in> set full_board"
    then obtain i j where "p = \<lparr>x = i, y = j\<rparr>" "i \<in> {0..GRID_SIZE - 1}" "j \<in> {0..GRID_SIZE - 1}"
      unfolding full_board_mem by (elim bexE)
    then show "in_grid p" by (simp add: in_grid_def)
  next
    assume "in_grid p"
    then have "x p \<in> {0..GRID_SIZE - 1}" "y p \<in> {0..GRID_SIZE - 1}"
      by (simp_all add: in_grid_def)
    moreover have "p = \<lparr>x = x p, y = y p\<rparr>" by simp
    ultimately show "p \<in> set full_board" unfolding full_board_mem
      by (intro bexI)
  qed
  then show ?thesis by (intro set_eqI) simp
qed

lemma full_board_length: "length full_board = 400"
proof -
  have "length full_board = nat GRID_SIZE * nat GRID_SIZE"
    unfolding full_board_def
    by (simp only: length_concat map_map comp_def length_map length_upto sum_list_triv) simp
  then show ?thesis by (simp add: GRID_SIZE_def)
qed

lemma generateFood_never:
  assumes "valid_random rnd" "Collect in_grid \<subseteq> set body"
  shows "generateFood rnd body = None"
  unfolding generateFood_def using draw_in_grid[OF assms(1)] assms(2)
  by (intro loop_never) blast

section \<open>Food placement and the food invariant\<close>

text \<open>
  C1: the cell that \<open>generateFood\<close> returns is never on the snake it was given, and it
  does return one as soon as some draw misses the snake; hence in every reachable state,
  after a tick that completes (whether or not the snake ate), the food is not on the snake.
\<close>

theorem food_never_on_snake:
  "(generateFood rnd body = Some cell \<longrightarrow>
      cell \<notin> set body \<and>
      \<not> list_ex (\<lambda>segment. x segment = x cell \<and> y segment = y cell) body) \<and>
   ((\<exists>n. draw rnd (2 * n) \<notin> set body) \<longrightarrow>
      (\<exists>cell. generateFood rnd body = Some cell \<and> cell \<notin> set body)) \<and>
   (reachable c \<and> gameLoop eager rnd today c = Some c' \<longrightarrow>
      food (gameState c') \<notin> set (snake (gameState c')))"
proof (intro conjI impI)
  assume "generateFood rnd body = Some cell"
  then show "cell \<notin> set body" by (rule generateFood_result(1))
  then show "\<not> list_ex (\<lambda>segment. x segment = x cell \<and> y segment = y cell) body"
    by (simp add: list_ex_cell)
next
  assume "\<exists>n. draw rnd (2 * n) \<notin> set body"
  then show "\<exists>cell. generateFood rnd body = Some cell \<and> cell \<notin> set body"
    by (rule generateFood_returns)
next
  assume a: "reachable c \<and> gameLoop eager rnd today c = Some c'"
  then have "food (gameState c) \<notin> set (snake (gameState c))"
    using reachable_well_formed[of c] by (simp add: well_formed_def)
  moreover from a have "gameLoop eager rnd today c = Some c'" by simp
  ultimately show "food (gameState c') \<notin> set (snake (gameState c'))"
    by (rule food_off_snake_gameLoop)
qed

theorem food_never_on_snake_witness:
  "generateFood sample_random [\<lparr>x = 11, y = 10\<rparr>, \<lparr>x = 10, y = 10\<rparr>] = Some \<lparr>x = 3, y = 7\<rparr> \<and>
   \<lparr>x = 3, y = 7\<rparr> \<notin> set [\<lparr>x = 11, y = 10\<rparr>, \<lparr>x = 10, y = 10\<rparr>] \<and>
   draw sample_random (2 * 2) \<notin> set [\<lparr>x = 11, y = 10\<rparr>, \<lparr>x = 10, y = 10\<rparr>] \<and>
   reachable fresh_game \<and>
   gameLoop False sample_random ''2024-01-01'' fresh_game = Some after_meal \<and>
   food (gameState after_meal) \<notin> set (snake (gameState after_meal))"
  using food_never_on_snake[of sample_random "[\<lparr>x = 11, y = 10\<rparr>, \<lparr>x = 10, y = 10\<rparr>]"
      "\<lparr>x = 3, y = 7\<rparr>" fresh_game False "''2024-01-01''" after_meal]
    sample_food_meal fresh_game_reachable fresh_game_tick[of False "''2024-01-01''"]
  by (simp add: sample_random_draws)

text \<open>
  C2, as the code has it: \<open>generateFood\<close> has no test for a full board. It returns the
  first drawn cell that is not on the snake, whenever there is one; when every draw
  lands on the snake it never returns, and that is so for every random source once the
  snake covers the board.
\<close>

theorem generateFood_returns_first_free_draw:
  "((\<forall>m<n. draw rnd (2 * m) \<in> set body) \<and> draw rnd (2 * n) \<notin> set body \<longrightarrow>
      generateFood rnd body = Some (draw rnd (2 * n))) \<and>
   ((\<forall>n. draw rnd (2 * n) \<in> set body) \<longrightarrow> generateFood rnd body = None) \<and>
   (valid_random rnd \<and> Collect in_grid \<subseteq> set body \<longrightarrow> generateFood rnd body = None)"
proof (intro conjI impI)
  assume "(\<forall>m<n. draw rnd (2 * m) \<in> set body) \<and> draw rnd (2 * n) \<notin> set body"
  then show "generateFood rnd body = Some (draw rnd (2 * n))"
    using loop_returns[of n rnd 0 body] by (simp add: generateFood_def)
next
  assume "\<forall>n. draw rnd (2 * n) \<in> set body"
  then show "generateFood rnd body = None"
    using loop_never[of rnd 0 body] by (simp add: generateFood_def)
next
  assume "valid_random rnd \<and> Collect in_grid \<subseteq> set body"
  then show "generateFood rnd body = None" by (simp add: generateFood_never)
qed

theorem generateFood_returns_first_free_draw_witness:
  "draw sample_random 0 \<in> set [\<lparr>x = 11, y = 10\<rparr>, \<lparr>x = 10, y = 10\<rparr>] \<and>
   draw sample_random 2 \<in> set [\<lparr>x = 11, y = 10\<rparr>, \<lparr>x = 10, y = 10\<rparr>] \<and>
   draw sample_random 4 \<notin> set [\<lparr>x = 11, y = 10\<rparr>, \<lparr>x = 10, y = 10\<rparr>] \<and>
   generateFood sample_random [\<lparr>x = 11, y = 10\<rparr>, \<lparr>x = 10, y = 10\<rparr>] = Some (draw sample_random 4) \<and>
   (\<forall>n. draw zero_random (2 * n) \<in> set full_board) \<and>
   valid_random zero_random \<and> Collect in_grid \<subseteq> set full_board \<and>
   generateFood zero_random full_board = None"
proof -
  have d: "\<forall>m<2. draw sample_random (2 * m) \<in> set [\<lparr>x = 11, y = 10\<rparr>, \<lparr>x = 10, y = 10\<rparr>]"
    by (simp add: less_Suc_eq numeral_2_eq_2 sample_random_draws)
  have z: "\<forall>n. draw zero_random (2 * n) \<in> set full_board"
    using draw_in_grid[OF zero_random_valid] by (simp add: full_board_set)
  show ?thesis
    using generateFood_returns_first_free_draw[of 2 sample_random "[\<lparr>x = 11, y = 10\<rparr>, \<lparr>x = 10, y = 10\<rparr>]"]
      generateFood_returns_first_free_draw[of _ zero_random full_board] d z zero_random_valid
    by (simp add: sample_random_draws full_board_set)
qed

theorem generateFood_full_board_counterexample:
  "length full_board = 400 \<and> valid_random zero_random \<and>
   generateFood zero_random full_board = None"
  using generateFood_never[OF zero_random_valid, of full_board]
  by (simp add: full_board_length zero_random_valid full_board_set)


section \<open>Reset\<close>

text \<open>
  C9: \<open>resetGame\<close>, from any state, leaves the game not started, not over and not paused,
  with snake, food, score, level and direction at the values the component is mounted
  with; the high score and the history, in the state and in storage, are unchanged.
\<close>

theorem resetGame_restores_initial:
  "\<not> gameStarted (resetGame c) \<and>
   \<not> gameOver (gameState (resetGame c)) \<and>
   \<not> paused (gameState (resetGame c)) \<and>
   snake (gameState (resetGame c)) = INITIAL_SNAKE \<and>
   food (gameState (resetGame c)) = INITIAL_FOOD \<and>
   GameState.score (gameState (resetGame c)) = 0 \<and>
   GameState.level (gameState (resetGame c)) = 1 \<and>
   direction (gameState (resetGame c)) = ''RIGHT'' \<and>
   gameState (resetGame c) =
     (gameState (mount st))\<lparr>highScore := highScore (gameState c),
                             gameHistory := gameHistory (gameState c)\<rparr> \<and>
   highScore (gameState (resetGame c)) = highScore (gameState c) \<and>
   gameHistory (gameState (resetGame c)) = gameHistory (gameState c) \<and>
   localStorage (resetGame c) = localStorage c"
  by (simp add: resetGame_def mount_def)

section \<open>The snake never overlaps itself\<close>

lemma no_overlap_gameLoop:
  assumes "distinct (snake (gameState c))" "snake (gameState c) \<noteq> []"
    and "gameLoop eager rnd today c = Some c'"
  shows "distinct (snake (gameState c')) \<and> snake (gameState c') \<noteq> []"
  using assms(3)
proof (cases rule: gameLoop_cases)
  case idle
  then show ?thesis using assms(1,2) by simp
next
  case empty
  then show ?thesis using assms(2) by simp
next
  case (collision h t)
  then show ?thesis using assms(1,2) by auto
next
  case (eat h t newFood)
  then show ?thesis using assms(1) by simp
next
  case (move h t)
  have "set (butlast (snake (gameState c))) \<subseteq> set (snake (gameState c))"
    by (auto dest: in_set_butlastD)
  moreover have "distinct (butlast (snake (gameState c)))"
    using assms(1) by (rule distinct_butlast)
  ultimately show ?thesis using move(5) unfolding move(7) by auto
qed

lemma nonempty_length: "xs \<noteq> [] \<longleftrightarrow> 1 \<le> length xs"
  by (cases xs) simp_all

text \<open>
  C3: in every reachable state, over or not, the snake has no two equal cells and at
  least one cell; a tick, a start, a reset, a key press and a pause toggle each keep it so.
\<close>

theorem snake_never_overlaps:
  "(reachable c \<longrightarrow> distinct (snake (gameState c)) \<and> 1 \<le> length (snake (gameState c))) \<and>
   (distinct (snake (gameState c)) \<and> 1 \<le> length (snake (gameState c)) \<longrightarrow>
      (gameLoop eager rnd today c = Some c' \<longrightarrow>
         distinct (snake (gameState c')) \<and> 1 \<le> length (snake (gameState c'))) \<and>
      (startGame rnd c = Some c'' \<longrightarrow>
         distinct (snake (gameState c'')) \<and> 1 \<le> length (snake (gameState c''))) \<and>
      distinct (snake (gameState (resetGame c))) \<and>
      1 \<le> length (snake (gameState (resetGame c))) \<and>
      distinct (snake (gameState (handleKeyPress key c))) \<and>
      1 \<le> length (snake (gameState (handleKeyPress key c))) \<and>
      distinct (snake (gameState (togglePause c))) \<and>
      1 \<le> length (snake (gameState (togglePause c))))"
proof (intro conjI impI)
  assume "reachable c"
  then have "well_formed (gameState c)" by (rule reachable_well_formed)
  then show "distinct (snake (gameState c))" "1 \<le> length (snake (gameState c))"
    by (simp_all add: well_formed_def nonempty_length)
next
  assume ok: "distinct (snake (gameState c)) \<and> 1 \<le> length (snake (gameState c))"
  then have d: "distinct (snake (gameState c))" and n: "snake (gameState c) \<noteq> []"
    by (simp_all add: nonempty_length)
  {
    assume "gameLoop eager rnd today c = Some c'"
    from no_overlap_gameLoop[OF d n this]
    show "distinct (snake (gameState c'))" "1 \<le> length (snake (gameState c'))"
      by (simp_all add: nonempty_length)
  }
  {
    assume "startGame rnd c = Some c''"
    then have "snake (gameState c'') = INITIAL_SNAKE"
      by (auto simp: startGame_def split: option.splits)
    then show "distinct (snake (gameState c''))" "1 \<le> length (snake (gameState c''))"
      by (simp_all add: INITIAL_SNAKE_def)
  }
  show "distinct (snake (gameState (resetGame c)))" "1 \<le> length (snake (gameState (resetGame c)))"
    by (simp_all add: resetGame_def INITIAL_SNAKE_def)
  have "snake (gameState (handleKeyPress key c)) = snake (gameState c)"
    by (rule handleKeyPress_cases) simp_all
  then show "distinct (snake (gameState (handleKeyPress key c)))"
    "1 \<le> length (snake (gameState (handleKeyPress key c)))"
    using ok by simp_all
  show "distinct (snake (gameState (togglePause c)))" "1 \<le> length (snake (gameState (togglePause c)))"
    using ok by (simp_all add: togglePause_def)
qed

theorem snake_never_overlaps_witness:
  "reachable fresh_game \<and>
   distinct (snake (gameState fresh_game)) \<and> 1 \<le> length (snake (gameState fresh_game)) \<and>
   gameLoop False sample_random ''2024-01-01'' fresh_game = Some after_meal \<and>
   distinct (snake (gameState after_meal)) \<and> 1 \<le> length (snake (gameState after_meal)) \<and>
   startGame sample_random (mount empty_storage) = Some fresh_game \<and>
   distinct (snake (gameState (mount empty_storage))) \<and>
   1 \<le> length (snake (gameState (mount empty_storage))) \<and>
   distinct (snake (gameState (resetGame fresh_game))) \<and>
   distinct (snake (gameState (handleKeyPress ''ArrowUp'' fresh_game))) \<and>
   distinct (snake (gameState (togglePause fresh_game)))"
  using snake_never_overlaps[of fresh_game False sample_random "''2024-01-01''" after_meal]
    snake_never_overlaps[of "mount empty_storage" _ sample_random _ _ fresh_game]
    fresh_game_reachable fresh_game_tick[of False "''2024-01-01''"] fresh_game_start r_mount[of empty_storage]
  by simp

section \<open>Score and level\<close>

lemma level_up_tick:
  "gameLoop eager sample_random today level_up_game =
     Some (level_up_game\<lparr>gameState := (gameState level_up_game)
        \<lparr>snake := [\<lparr>x = 11, y = 10\<rparr>, \<lparr>x = 10, y = 10\<rparr>], food := \<lparr>x = 3, y = 7\<rparr>,
         score := 100, level := 2\<rparr>\<rparr>)"
proof -
  have "gameLoop eager sample_random today level_up_game =
     (case generateFood sample_random (move_head (direction (gameState level_up_game)) \<lparr>x = 10, y = 10\<rparr> # snake (gameState level_up_game)) of
        None \<Rightarrow> None
      | Some newFood \<Rightarrow>
          Some (level_up_game\<lparr>gameState := (gameState level_up_game)
                  \<lparr>snake := move_head (direction (gameState level_up_game)) \<lparr>x = 10, y = 10\<rparr> # snake (gameState level_up_game),
                   food := newFood,
                   score := GameState.score (gameState level_up_game) + 10,
                   level := (GameState.score (gameState level_up_game) + 10) div 100 + 1\<rparr>\<rparr>))"
    by (rule gameLoop_eat[where t = "[]"])
       (simp_all add: level_up_game_def fresh_game_def move_head_def in_grid_def GRID_SIZE_def)
  also have "\<dots> = Some (level_up_game\<lparr>gameState := (gameState level_up_game)
        \<lparr>snake := [\<lparr>x = 11, y = 10\<rparr>, \<lparr>x = 10, y = 10\<rparr>], food := \<lparr>x = 3, y = 7\<rparr>,
         score := 100, level := 2\<rparr>\<rparr>)"
    by (simp add: level_up_game_def fresh_game_def move_head_def sample_food_meal)
  finally show ?thesis .
qed

text \<open>
  C7: in every reachable state, so after every tick and right after a start, the level
  is \<open>score div 100 + 1\<close> and the score is a non-negative multiple of 10. A tick that
  changes the score adds 10 and sets the level from the new score; a start sets score 0
  and level 1.
\<close>

theorem level_follows_score:
  "(reachable c \<longrightarrow>
      GameState.level (gameState c) = GameState.score (gameState c) div 100 + 1 \<and>
      0 \<le> GameState.score (gameState c) \<and> GameState.score (gameState c) mod 10 = 0) \<and>
   (reachable c \<and> valid_random rnd \<and> gameLoop eager rnd today c = Some c' \<longrightarrow>
      GameState.level (gameState c') = GameState.score (gameState c') div 100 + 1 \<and>
      0 \<le> GameState.score (gameState c') \<and> GameState.score (gameState c') mod 10 = 0) \<and>
   (gameLoop eager rnd today c = Some c' \<and> GameState.score (gameState c') \<noteq> GameState.score (gameState c) \<longrightarrow>
      GameState.score (gameState c') = GameState.score (gameState c) + 10 \<and>
      GameState.level (gameState c') = GameState.score (gameState c') div 100 + 1) \<and>
   (startGame rnd c = Some c'' \<longrightarrow>
      GameState.score (gameState c'') = 0 \<and> GameState.level (gameState c'') = 1)"
proof (intro conjI impI)
  assume "reachable c"
  then have "well_formed (gameState c)" by (rule reachable_well_formed)
  then show "GameState.level (gameState c) = GameState.score (gameState c) div 100 + 1"
    "0 \<le> GameState.score (gameState c)" "GameState.score (gameState c) mod 10 = 0"
    by (simp_all add: well_formed_def)
next
  assume a: "reachable c \<and> valid_random rnd \<and> gameLoop eager rnd today c = Some c'"
  then have "well_formed (gameState c)" by (simp add: reachable_well_formed)
  with a have "well_formed (gameState c')" by (blast intro: well_formed_gameLoop)
  then show "GameState.level (gameState c') = GameState.score (gameState c') div 100 + 1"
    "0 \<le> GameState.score (gameState c')" "GameState.score (gameState c') mod 10 = 0"
    by (simp_all add: well_formed_def)
next
  assume a: "gameLoop eager rnd today c = Some c' \<and>
    GameState.score (gameState c') \<noteq> GameState.score (gameState c)"
  then have g: "gameLoop eager rnd today c = Some c'" and
    n: "GameState.score (gameState c') \<noteq> GameState.score (gameState c)" by simp_all
  from g have "GameState.score (gameState c') = GameState.score (gameState c) + 10 \<and>
      GameState.level (gameState c') = GameState.score (gameState c') div 100 + 1"
  proof (cases rule: gameLoop_cases)
    case (eat h t newFood)
    then show ?thesis by simp
  qed (use n in auto)
  then show "GameState.score (gameState c') = GameState.score (gameState c) + 10"
    "GameState.level (gameState c') = GameState.score (gameState c') div 100 + 1" by simp_all
next
  assume "startGame rnd c = Some c''"
  then show "GameState.score (gameState c'') = 0" "GameState.level (gameState c'') = 1"
    by (auto simp: startGame_def split: option.splits)
qed

theorem level_follows_score_witness:
  "reachable after_meal \<and>
   GameState.score (gameState after_meal) = 10 \<and> GameState.level (gameState after_meal) = 1 \<and>
   reachable fresh_game \<and> valid_random sample_random \<and>
   gameLoop False sample_random ''2024-01-01'' fresh_game = Some after_meal \<and>
   GameState.level (gameState after_meal) = GameState.score (gameState after_meal) div 100 + 1 \<and>
   GameState.score (gameState after_meal) \<noteq> GameState.score (gameState fresh_game) \<and>
   GameState.score (gameState after_meal) = GameState.score (gameState fresh_game) + 10 \<and>
   GameState.score (gameState level_up_game) = 90 \<and>
   (\<exists>c'. gameLoop False sample_random ''2024-01-01'' level_up_game = Some c' \<and>
         GameState.score (gameState c') = 100 \<and> GameState.level (gameState c') = 2 \<and>
         GameState.level (gameState c') = GameState.score (gameState c') div 100 + 1) \<and>
   startGame sample_random (mount empty_storage) = Some fresh_game \<and>
   GameState.score (gameState fresh_game) = 0 \<and> GameState.level (gameState fresh_game) = 1"
proof -
  let ?today = "''2024-01-01''"
  let ?up = "level_up_game\<lparr>gameState := (gameState level_up_game)
        \<lparr>snake := [\<lparr>x = 11, y = 10\<rparr>, \<lparr>x = 10, y = 10\<rparr>], food := \<lparr>x = 3, y = 7\<rparr>,
         score := 100, level := 2\<rparr>\<rparr>"
  have vals: "GameState.score (gameState after_meal) = 10" "GameState.level (gameState after_meal) = 1"
    "GameState.score (gameState fresh_game) = 0" "GameState.level (gameState fresh_game) = 1"
    "GameState.score (gameState level_up_game) = 90"
    "GameState.score (gameState ?up) = 100" "GameState.level (gameState ?up) = 2"
    by (simp_all add: after_meal_def fresh_game_def level_up_game_def)
  have ne: "GameState.score (gameState after_meal) \<noteq> GameState.score (gameState fresh_game)"
    "GameState.score (gameState ?up) \<noteq> GameState.score (gameState level_up_game)"
    unfolding vals by simp_all
  note t = fresh_game_tick[of False ?today]
  note u = level_up_tick[of False ?today]
  note p1 = level_follows_score[of after_meal, THEN conjunct1, THEN mp, OF after_meal_reachable]
  note p2 = level_follows_score[of fresh_game sample_random False ?today after_meal,
      THEN conjunct2, THEN conjunct1, THEN mp,
      OF conjI[OF fresh_game_reachable conjI[OF sample_random_valid t]]]
  note p3 = level_follows_score[of fresh_game sample_random False ?today after_meal,
      THEN conjunct2, THEN conjunct2, THEN conjunct1, THEN mp, OF conjI[OF t ne(1)]]
  note p4 = level_follows_score[of level_up_game sample_random False ?today ?up,
      THEN conjunct2, THEN conjunct2, THEN conjunct1, THEN mp, OF conjI[OF u ne(2)]]
  note p5 = level_follows_score[of "mount empty_storage" sample_random _ _ _ fresh_game,
      THEN conjunct2, THEN conjunct2, THEN conjunct2, THEN mp, OF fresh_game_start]
  have ex: "\<exists>c'. gameLoop False sample_random ?today level_up_game = Some c' \<and>
         GameState.score (gameState c') = 100 \<and> GameState.level (gameState c') = 2 \<and>
         GameState.level (gameState c') = GameState.score (gameState c') div 100 + 1"
    using u vals(6,7) p4 by (intro exI[of _ ?up]) simp
  show ?thesis
    using after_meal_reachable fresh_game_reachable sample_random_valid t vals(1-5) ne(1)
      p1 p2 p3 p5 ex fresh_game_start
    by (intro conjI) (simp_all only: simp_thms)
qed

section \<open>A game that fills the board\<close>

lemma aim_valid: "in_grid p \<Longrightarrow> valid_random (aim p)"
  by (simp add: valid_random_def aim_def in_grid_def GRID_SIZE_def)

lemma aim_draw: "even i \<Longrightarrow> draw (aim p) i = p"
  by (simp add: draw_def aim_def GRID_SIZE_def)

lemma aim_food: "p \<notin> set body \<Longrightarrow> generateFood (aim p) body = Some p"
  unfolding generateFood_def by (subst loop_unfold) (simp add: aim_draw)

lemma path_in_grid: "in_grid (path k) \<longleftrightarrow> k < 400"
  by (auto simp: path_def in_grid_def GRID_SIZE_def)

lemma path_inj: "path i = path j \<Longrightarrow> i = j"
proof -
  assume a: "path i = path j"
  then have d: "i div 20 = j div 20" by (simp add: path_def)
  from a have "x (path i) = x (path j)" by simp
  then have "i mod 20 = j mod 20" unfolding path_def using d by (simp split: if_splits)
  with d show "i = j" by (metis div_mult_mod_eq)
qed

lemma path_step: "move_head (heading k) (path k) = path (Suc k)"
  by (simp add: move_head_def heading_def path_def mod_Suc div_Suc)

lemma path_cover: "in_grid p \<Longrightarrow> \<exists>k<400. path k = p"
proof -
  assume g: "in_grid p"
  define c where "c = (if even (y p) then nat (x p) else 19 - nat (x p))"
  have c: "c < 20" using g by (auto simp: c_def in_grid_def GRID_SIZE_def)
  let ?k = "20 * nat (y p) + c"
  have dv: "?k div 20 = nat (y p)" and md: "?k mod 20 = c" using c by simp_all
  have "path ?k = \<lparr>x = x p, y = y p\<rparr>"
    unfolding path_def dv md using g
    by (auto simp: c_def in_grid_def GRID_SIZE_def even_nat_iff)
  moreover have "nat (y p) \<le> 19" using g unfolding in_grid_def GRID_SIZE_def by linarith
  then have "?k < 400" using c by arith
  ultimately show ?thesis by auto
qed


lemma snake_hunt: "snake (gameState (hunt d k)) = path k # map path (rev [0..<k])"
  by (simp add: hunt_def)

lemma set_snake_hunt: "set (snake (gameState (hunt d k))) = path ` {0..k}"
  by (simp add: hunt_def atLeastLessThanSuc_atLeastAtMost del: upt_Suc)

lemma hunt_fields:
  "\<not> gameOver (gameState (hunt d k))" "\<not> paused (gameState (hunt d k))"
  "gameStarted (hunt d k)" "direction (gameState (hunt d k)) = d"
  "food (gameState (hunt d k)) = path (Suc k)"
  "GameState.score (gameState (hunt d k)) = 10 * int k"
  "length (snake (gameState (hunt d k))) = Suc k"
  by (simp_all add: hunt_def fresh_game_def)

lemma hunt_head_free: "path (Suc k) \<notin> set (snake (gameState (hunt d k)))"
  unfolding set_snake_hunt by (auto dest: path_inj)

lemma hunt_tick:
  assumes "k < 398"
  shows "gameLoop eager (aim (path (Suc (Suc k)))) today (hunt (heading k) k) =
           Some (hunt (heading k) (Suc k))"
proof -
  let ?c = "hunt (heading k) k"
  have mv: "move_head (direction (gameState ?c)) (path k) = path (Suc k)"
    by (simp add: hunt_fields path_step)
  have g: "in_grid (move_head (direction (gameState ?c)) (path k))"
    unfolding mv path_in_grid using assms by simp
  have f: "move_head (direction (gameState ?c)) (path k) \<notin> set (snake (gameState ?c))"
    unfolding mv by (rule hunt_head_free)
  have e: "move_head (direction (gameState ?c)) (path k) = food (gameState ?c)"
    unfolding mv by (simp add: hunt_fields)
  have "path (Suc (Suc k)) \<notin> set (path (Suc k) # snake (gameState ?c))"
    by (auto simp: set_snake_hunt dest: path_inj)
  then have nf: "generateFood (aim (path (Suc (Suc k)))) (path (Suc k) # snake (gameState ?c)) =
      Some (path (Suc (Suc k)))"
    by (rule aim_food)
  show ?thesis
    unfolding gameLoop_eat[OF hunt_fields(1,2) snake_hunt g f e] mv nf
    by (simp add: hunt_def)
qed


lemma hunt_turn:
  assumes "reachable (hunt (heading k) (Suc k))"
  shows "reachable (hunt (heading (Suc k)) (Suc k))"
proof -
  have up: "heading k \<noteq> ''UP''" by (simp add: heading_def)
  have "heading (Suc k) = ''DOWN'' \<or>
      heading (Suc k) = ''RIGHT'' \<and> heading k \<noteq> ''LEFT'' \<or>
      heading (Suc k) = ''LEFT'' \<and> heading k \<noteq> ''RIGHT''"
  proof (cases "k mod 20 = 19")
    case True
    then show ?thesis by (simp add: heading_def mod_Suc div_Suc)
  next
    case False
    then show ?thesis by (simp add: heading_def mod_Suc div_Suc)
  qed
  then consider (down) "heading (Suc k) = ''DOWN''"
    | (right) "heading (Suc k) = ''RIGHT''" "heading k \<noteq> ''LEFT''"
    | (left) "heading (Suc k) = ''LEFT''" "heading k \<noteq> ''RIGHT''"
    by blast
  then show ?thesis
  proof cases
    case down
    have "handleKeyPress ''ArrowDown'' (hunt (heading k) (Suc k)) = hunt ''DOWN'' (Suc k)"
      using up by (simp add: handleKeyPress_def hunt_def fresh_game_def)
    then show ?thesis using r_key[OF assms, of "''ArrowDown''"] down by simp
  next
    case right
    have "handleKeyPress ''ArrowRight'' (hunt (heading k) (Suc k)) = hunt ''RIGHT'' (Suc k)"
      using right(2) by (simp add: handleKeyPress_def hunt_def fresh_game_def)
    then show ?thesis using r_key[OF assms, of "''ArrowRight''"] right by simp
  next
    case left
    have "handleKeyPress ''ArrowLeft'' (hunt (heading k) (Suc k)) = hunt ''LEFT'' (Suc k)"
      using left(2) by (simp add: handleKeyPress_def hunt_def fresh_game_def)
    then show ?thesis using r_key[OF assms, of "''ArrowLeft''"] left by simp
  qed
qed

lemma hunt_reachable_step:
  assumes "reachable (hunt (heading k) k)" "k < 398"
  shows "reachable (hunt (heading (Suc k)) (Suc k))"
proof -
  have "in_grid (path (Suc (Suc k)))" unfolding path_in_grid using assms(2) by simp
  then have v: "valid_random (aim (path (Suc (Suc k))))" by (rule aim_valid)
  have "timer_tick False (aim (path (Suc (Suc k)))) [] (hunt (heading k) k) =
      Some (hunt (heading k) (Suc k))"
    by (simp add: timer_tick_def hunt_fields hunt_tick[OF assms(2)])
  from r_tick[OF assms(1) v this] show ?thesis by (rule hunt_turn)
qed


lemma walk_start: "startGame (aim \<lparr>x = 1, y = 0\<rparr>) (mount empty_storage) = Some (walk ''RIGHT'' \<lparr>x = 10, y = 10\<rparr>)"
proof -
  have "generateFood (aim \<lparr>x = 1, y = 0\<rparr>) INITIAL_SNAKE = Some \<lparr>x = 1, y = 0\<rparr>"
    by (rule aim_food) (simp add: INITIAL_SNAKE_def)
  then show ?thesis
    by (simp add: startGame_def mount_def walk_def fresh_game_def empty_storage_def INITIAL_SNAKE_def)
qed

lemma walk_turn:
  "d \<noteq> ''DOWN'' \<Longrightarrow> handleKeyPress ''ArrowUp'' (walk d p) = walk ''UP'' p"
  "d \<noteq> ''RIGHT'' \<Longrightarrow> handleKeyPress ''ArrowLeft'' (walk d p) = walk ''LEFT'' p"
  "d \<noteq> ''LEFT'' \<Longrightarrow> handleKeyPress ''ArrowRight'' (walk d p) = walk ''RIGHT'' p"
  by (simp_all add: handleKeyPress_def walk_def fresh_game_def)

lemma walk_tick:
  assumes "in_grid (move_head d p)" "move_head d p \<noteq> p" "move_head d p \<noteq> \<lparr>x = 1, y = 0\<rparr>"
  shows "timer_tick eager rnd today (walk d p) = Some (walk d (move_head d p))"
proof -
  let ?c = "walk d p"
  have f: "\<not> gameOver (gameState ?c)" "\<not> paused (gameState ?c)" "snake (gameState ?c) = p # []"
    "in_grid (move_head (direction (gameState ?c)) p)"
    "move_head (direction (gameState ?c)) p \<notin> set (snake (gameState ?c))"
    "move_head (direction (gameState ?c)) p \<noteq> food (gameState ?c)"
    using assms by (simp_all add: walk_def fresh_game_def)
  show ?thesis unfolding timer_tick_def gameLoop_move[OF f]
    by (simp add: walk_def fresh_game_def)
qed

lemma walk_step:
  assumes "reachable (walk d p)"
    and "in_grid (move_head d p)" "move_head d p \<noteq> p" "move_head d p \<noteq> \<lparr>x = 1, y = 0\<rparr>"
  shows "reachable (walk d (move_head d p))"
  by (rule r_tick[OF assms(1) zero_random_valid walk_tick[OF assms(2-4), of False zero_random "[]"]])

lemma walk_first: "reachable (walk ''LEFT'' \<lparr>x = 10, y = 9\<rparr>)"
proof -
  have "reachable (walk ''RIGHT'' \<lparr>x = 10, y = 10\<rparr>)"
    by (rule r_start[OF r_mount _ aim_valid walk_start])
       (simp_all add: mount_def in_grid_def GRID_SIZE_def)
  from r_key[OF this, of "''ArrowUp''"] have "reachable (walk ''UP'' \<lparr>x = 10, y = 10\<rparr>)"
    by (simp add: walk_turn)
  from walk_step[OF this] have "reachable (walk ''UP'' \<lparr>x = 10, y = 9\<rparr>)"
    by (simp add: move_head_def in_grid_def GRID_SIZE_def)
  from r_key[OF this, of "''ArrowLeft''"] show ?thesis by (simp add: walk_turn)
qed

lemma walk_left: "n \<le> 10 \<Longrightarrow> reachable (walk ''LEFT'' \<lparr>x = 10 - int n, y = 9\<rparr>)"
proof (induction n)
  case 0
  show ?case using walk_first by simp
next
  case (Suc n)
  then have "reachable (walk ''LEFT'' \<lparr>x = 10 - int n, y = 9\<rparr>)" by simp
  from walk_step[OF this] Suc.prems show ?case
    by (simp add: move_head_def in_grid_def GRID_SIZE_def)
qed

lemma walk_up: "n \<le> 9 \<Longrightarrow> reachable (walk ''UP'' \<lparr>x = 0, y = 9 - int n\<rparr>)"
proof (induction n)
  case 0
  from r_key[OF walk_left[of 10], of "''ArrowUp''"] show ?case by (simp add: walk_turn)
next
  case (Suc n)
  then have "reachable (walk ''UP'' \<lparr>x = 0, y = 9 - int n\<rparr>)" by simp
  from walk_step[OF this] Suc.prems show ?case
    by (simp add: move_head_def in_grid_def GRID_SIZE_def)
qed

lemma corner_reachable: "reachable (walk ''UP'' \<lparr>x = 0, y = 0\<rparr>)"
  using walk_up[of 9] by simp

lemma hunt_zero: "hunt d 0 = walk d \<lparr>x = 0, y = 0\<rparr>"
  by (simp add: hunt_def walk_def path_def fresh_game_def)

lemma hunt_reachable: "k \<le> 398 \<Longrightarrow> reachable (hunt (heading k) k)"
proof (induction k)
  case 0
  from r_key[OF corner_reachable, of "''ArrowRight''"] show ?case
    by (simp add: walk_turn hunt_zero heading_def)
next
  case (Suc k)
  then show ?case by (intro hunt_reachable_step) simp_all
qed

lemma hunt_last_reachable: "reachable (hunt ''LEFT'' 398)"
  using hunt_reachable[of 398] by (simp add: heading_def)

lemma hunt_last_hang:
  assumes "valid_random rnd"
  shows "gameLoop eager rnd today (hunt ''LEFT'' 398) = None"
proof -
  let ?c = "hunt ''LEFT'' 398"
  have hd: "heading 398 = ''LEFT''" by (simp add: heading_def)
  have mv: "move_head (direction (gameState ?c)) (path 398) = path (Suc 398)"
    using path_step[of 398] by (simp add: hunt_fields hd)
  have g: "in_grid (move_head (direction (gameState ?c)) (path 398))"
    unfolding mv path_in_grid by simp
  have f: "move_head (direction (gameState ?c)) (path 398) \<notin> set (snake (gameState ?c))"
    unfolding mv by (rule hunt_head_free)
  have e: "move_head (direction (gameState ?c)) (path 398) = food (gameState ?c)"
    unfolding mv by (simp add: hunt_fields)
  have "Collect in_grid \<subseteq> set (path (Suc 398) # snake (gameState ?c))"
  proof
    fix p assume "p \<in> Collect in_grid"
    then obtain k where k: "k < 400" "path k = p" using path_cover by auto
    then have "k \<le> 398 \<or> k = 399" by arith
    then show "p \<in> set (path (Suc 398) # snake (gameState ?c))"
      using k(2) by (auto simp: set_snake_hunt)
  qed
  from generateFood_never[OF assms this] show ?thesis
    unfolding gameLoop_eat[OF hunt_fields(1,2) snake_hunt g f e] mv by simp
qed

section \<open>Eating and moving\<close>

lemma hunt_last_head:
  "move_head (direction (gameState (hunt ''LEFT'' 398))) (hd (snake (gameState (hunt ''LEFT'' 398)))) =
     food (gameState (hunt ''LEFT'' 398))"
  using path_step[of 398] by (simp add: hunt_fields snake_hunt heading_def)

lemma hunt_last_cover:
  "Collect in_grid \<subseteq>
     set (food (gameState (hunt ''LEFT'' 398)) # snake (gameState (hunt ''LEFT'' 398)))"
proof
  fix p assume "p \<in> Collect in_grid"
  then obtain k where k: "k < 400" "path k = p" using path_cover by auto
  then have "k \<le> 398 \<or> k = 399" by arith
  then show "p \<in> set (food (gameState (hunt ''LEFT'' 398)) # snake (gameState (hunt ''LEFT'' 398)))"
    using k(2) by (auto simp: set_snake_hunt hunt_fields)
qed

text \<open>
  C5, as the code has it: in a reachable state that is neither over nor paused, a tick
  whose moved head is the food cell, if it completes, lengthens the snake by exactly 1
  and adds exactly 10 to the score. It completes when some draw misses the lengthened
  snake, and it never completes when the lengthened snake covers the board. Any other
  tick without a collision completes with the length (and the score) unchanged.
\<close>

theorem eating_tick_that_completes:
  "(reachable c \<and> \<not> gameOver (gameState c) \<and> \<not> paused (gameState c) \<and>
    move_head (direction (gameState c)) (hd (snake (gameState c))) = food (gameState c) \<longrightarrow>
      (gameLoop eager rnd today c = Some c' \<longrightarrow>
         length (snake (gameState c')) = length (snake (gameState c)) + 1 \<and>
         GameState.score (gameState c') = GameState.score (gameState c) + 10) \<and>
      ((\<exists>n. draw rnd (2 * n) \<notin> set (food (gameState c) # snake (gameState c))) \<longrightarrow>
         (\<exists>c1. gameLoop eager rnd today c = Some c1)) \<and>
      (valid_random rnd \<and> Collect in_grid \<subseteq> set (food (gameState c) # snake (gameState c)) \<longrightarrow>
         gameLoop eager rnd today c = None)) \<and>
   (\<not> gameOver (gameState c) \<and> \<not> paused (gameState c) \<and> snake (gameState c) \<noteq> [] \<and>
    in_grid (move_head (direction (gameState c)) (hd (snake (gameState c)))) \<and>
    move_head (direction (gameState c)) (hd (snake (gameState c))) \<notin> set (snake (gameState c)) \<and>
    move_head (direction (gameState c)) (hd (snake (gameState c))) \<noteq> food (gameState c) \<longrightarrow>
      (\<exists>c2. gameLoop eager rnd today c = Some c2 \<and>
         length (snake (gameState c2)) = length (snake (gameState c)) \<and>
         GameState.score (gameState c2) = GameState.score (gameState c)))"
proof (intro conjI impI)
  assume a: "reachable c \<and> \<not> gameOver (gameState c) \<and> \<not> paused (gameState c) \<and>
    move_head (direction (gameState c)) (hd (snake (gameState c))) = food (gameState c)"
  then have wf: "well_formed (gameState c)" by (simp add: reachable_well_formed)
  then obtain h t where ht: "snake (gameState c) = h # t"
    by (cases "snake (gameState c)") (auto simp: well_formed_def)
  have run: "\<not> gameOver (gameState c)" "\<not> paused (gameState c)" using a by simp_all
  have hd: "move_head (direction (gameState c)) h = food (gameState c)" using a ht by simp
  have free: "in_grid (move_head (direction (gameState c)) h)"
    "move_head (direction (gameState c)) h \<notin> set (snake (gameState c))"
    using wf unfolding hd by (simp_all add: well_formed_def)
  note eq = gameLoop_eat[OF run ht free hd, of eager rnd today]
  {
    assume "gameLoop eager rnd today c = Some c'"
    then show "length (snake (gameState c')) = length (snake (gameState c)) + 1"
      "GameState.score (gameState c') = GameState.score (gameState c) + 10"
      unfolding eq by (auto split: option.splits)
  }
  {
    assume "\<exists>n. draw rnd (2 * n) \<notin> set (food (gameState c) # snake (gameState c))"
    from generateFood_returns[OF this] show "\<exists>c1. gameLoop eager rnd today c = Some c1"
      unfolding eq hd by auto
  }
  {
    assume "valid_random rnd \<and> Collect in_grid \<subseteq> set (food (gameState c) # snake (gameState c))"
    then have "generateFood rnd (food (gameState c) # snake (gameState c)) = None"
      by (simp add: generateFood_never)
    then show "gameLoop eager rnd today c = None" unfolding eq hd by simp
  }
next
  assume a: "\<not> gameOver (gameState c) \<and> \<not> paused (gameState c) \<and> snake (gameState c) \<noteq> [] \<and>
    in_grid (move_head (direction (gameState c)) (hd (snake (gameState c)))) \<and>
    move_head (direction (gameState c)) (hd (snake (gameState c))) \<notin> set (snake (gameState c)) \<and>
    move_head (direction (gameState c)) (hd (snake (gameState c))) \<noteq> food (gameState c)"
  then obtain h t where ht: "snake (gameState c) = h # t"
    by (cases "snake (gameState c)") auto
  have run: "\<not> gameOver (gameState c)" "\<not> paused (gameState c)" using a by simp_all
  have free: "in_grid (move_head (direction (gameState c)) h)"
    "move_head (direction (gameState c)) h \<notin> set (snake (gameState c))"
    "move_head (direction (gameState c)) h \<noteq> food (gameState c)"
    using a ht by simp_all
  show "\<exists>c2. gameLoop eager rnd today c = Some c2 \<and>
         length (snake (gameState c2)) = length (snake (gameState c)) \<and>
         GameState.score (gameState c2) = GameState.score (gameState c)"
    unfolding gameLoop_move[OF run ht free, of eager rnd today] using ht by simp
qed

theorem eating_tick_that_completes_witness:
  "reachable fresh_game \<and> \<not> gameOver (gameState fresh_game) \<and> \<not> paused (gameState fresh_game) \<and>
   move_head (direction (gameState fresh_game)) (hd (snake (gameState fresh_game))) =
     food (gameState fresh_game) \<and>
   gameLoop False sample_random ''2024-01-01'' fresh_game = Some after_meal \<and>
   length (snake (gameState fresh_game)) = 1 \<and>
   length (snake (gameState after_meal)) = length (snake (gameState fresh_game)) + 1 \<and>
   GameState.score (gameState after_meal) = GameState.score (gameState fresh_game) + 10 \<and>
   draw sample_random (2 * 2) \<notin> set (food (gameState fresh_game) # snake (gameState fresh_game)) \<and>
   (\<exists>c1. gameLoop False sample_random ''2024-01-01'' fresh_game = Some c1) \<and>
   reachable (hunt ''LEFT'' 398) \<and>
   \<not> gameOver (gameState (hunt ''LEFT'' 398)) \<and> \<not> paused (gameState (hunt ''LEFT'' 398)) \<and>
   move_head (direction (gameState (hunt ''LEFT'' 398))) (hd (snake (gameState (hunt ''LEFT'' 398)))) =
     food (gameState (hunt ''LEFT'' 398)) \<and>
   valid_random zero_random \<and>
   Collect in_grid \<subseteq>
     set (food (gameState (hunt ''LEFT'' 398)) # snake (gameState (hunt ''LEFT'' 398))) \<and>
   gameLoop False zero_random ''2024-01-01'' (hunt ''LEFT'' 398) = None \<and>
   \<not> gameOver (gameState after_meal) \<and> \<not> paused (gameState after_meal) \<and>
   snake (gameState after_meal) \<noteq> [] \<and>
   in_grid (move_head (direction (gameState after_meal)) (hd (snake (gameState after_meal)))) \<and>
   move_head (direction (gameState after_meal)) (hd (snake (gameState after_meal)))
     \<notin> set (snake (gameState after_meal)) \<and>
   move_head (direction (gameState after_meal)) (hd (snake (gameState after_meal)))
     \<noteq> food (gameState after_meal) \<and>
   (\<exists>c2. gameLoop False sample_random ''2024-01-01'' after_meal = Some c2 \<and>
         length (snake (gameState c2)) = length (snake (gameState after_meal)) \<and>
         GameState.score (gameState c2) = GameState.score (gameState after_meal))"
proof -
  let ?today = "''2024-01-01''"
  let ?full = "hunt ''LEFT'' 398"
  have f: "\<not> gameOver (gameState fresh_game)" "\<not> paused (gameState fresh_game)"
    "move_head (direction (gameState fresh_game)) (hd (snake (gameState fresh_game))) =
       food (gameState fresh_game)"
    "length (snake (gameState fresh_game)) = 1"
    "draw sample_random (2 * 2) \<notin> set (food (gameState fresh_game) # snake (gameState fresh_game))"
    by (simp_all add: fresh_game_def move_head_def sample_random_draws)
  have m: "\<not> gameOver (gameState after_meal)" "\<not> paused (gameState after_meal)"
    "snake (gameState after_meal) \<noteq> []"
    "in_grid (move_head (direction (gameState after_meal)) (hd (snake (gameState after_meal))))"
    "move_head (direction (gameState after_meal)) (hd (snake (gameState after_meal)))
       \<notin> set (snake (gameState after_meal))"
    "move_head (direction (gameState after_meal)) (hd (snake (gameState after_meal)))
       \<noteq> food (gameState after_meal)"
    by (simp_all add: after_meal_def fresh_game_def move_head_def in_grid_def GRID_SIZE_def)
  note h = hunt_fields(1,2)[of "''LEFT''" 398] hunt_last_head
  note t = fresh_game_tick[of False ?today]
  note run1 = conjI[OF fresh_game_reachable conjI[OF f(1) conjI[OF f(2,3)]]]
  note p1 = eating_tick_that_completes[of fresh_game False sample_random ?today after_meal,
      THEN conjunct1, THEN mp, OF run1, THEN conjunct1, THEN mp, OF t]
  have e: "\<exists>n. draw sample_random (2 * n) \<notin>
      set (food (gameState fresh_game) # snake (gameState fresh_game))"
    using f(5) by (rule exI)
  note p1b = eating_tick_that_completes[of fresh_game False sample_random ?today,
      THEN conjunct1, THEN mp, OF run1, THEN conjunct2, THEN conjunct1, THEN mp, OF e]
  note run2 = conjI[OF hunt_last_reachable conjI[OF h(1) conjI[OF h(2,3)]]]
  note p1c = eating_tick_that_completes[of ?full False zero_random ?today,
      THEN conjunct1, THEN mp, OF run2, THEN conjunct2, THEN conjunct2, THEN mp,
      OF conjI[OF zero_random_valid hunt_last_cover]]
  note p2 = eating_tick_that_completes[of after_meal False sample_random ?today,
      THEN conjunct2, THEN mp,
      OF conjI[OF m(1) conjI[OF m(2) conjI[OF m(3) conjI[OF m(4) conjI[OF m(5,6)]]]]]]
  show ?thesis
    using fresh_game_reachable hunt_last_reachable zero_random_valid hunt_last_cover f m h t
      p1 p1b p1c p2
    by (intro conjI) (simp_all only: simp_thms)
qed

theorem eating_tick_full_board_counterexample:
  "reachable (hunt ''LEFT'' 398) \<and> gameStarted (hunt ''LEFT'' 398) \<and>
   \<not> gameOver (gameState (hunt ''LEFT'' 398)) \<and> \<not> paused (gameState (hunt ''LEFT'' 398)) \<and>
   move_head (direction (gameState (hunt ''LEFT'' 398))) (hd (snake (gameState (hunt ''LEFT'' 398)))) =
     food (gameState (hunt ''LEFT'' 398)) \<and>
   length (snake (gameState (hunt ''LEFT'' 398))) = 399 \<and>
   valid_random zero_random \<and>
   gameLoop True zero_random ''2024-01-01'' (hunt ''LEFT'' 398) = None \<and>
   gameLoop False zero_random ''2024-01-01'' (hunt ''LEFT'' 398) = None"
proof -
  have l: "length (snake (gameState (hunt ''LEFT'' 398))) = 399"
    by (simp add: hunt_fields)
  show ?thesis
    using hunt_last_reachable hunt_fields(1,2,3)[of "''LEFT''" 398] hunt_last_head l
      zero_random_valid hunt_last_hang[OF zero_random_valid]
    by (intro conjI) (simp_all only: simp_thms)
qed

section \<open>Collisions\<close>

lemma gameLoop_collision_hd:
  assumes "\<not> gameOver (gameState c)" "\<not> paused (gameState c)" "snake (gameState c) \<noteq> []"
    and "\<not> in_grid (move_head (direction (gameState c)) (hd (snake (gameState c)))) \<or>
         move_head (direction (gameState c)) (hd (snake (gameState c))) \<in> set (snake (gameState c))"
  shows "gameLoop eager rnd today c =
     Some (c\<lparr>gameState :=
               (if eager then (gameState c)\<lparr>gameOver := True\<rparr>
                else (gameState c)
                  \<lparr>gameOver := True,
                   highScore := max (highScore (gameState c)) (GameState.score (gameState c)),
                   gameHistory :=
                     take 10 (\<lparr>GameRecord.score = GameState.score (gameState c),
                                GameRecord.level = GameState.level (gameState c),
                                date = today,
                                difficulty = DIFFICULTIES_name (Component.difficulty c)\<rparr>
                              # gameHistory (gameState c))\<rparr>),
             localStorage :=
               \<lparr>snakeHighScore =
                  Some (max (highScore (gameState c)) (GameState.score (gameState c))),
                snakeGameHistory =
                  Some (take 10 (\<lparr>GameRecord.score = GameState.score (gameState c),
                                   GameRecord.level = GameState.level (gameState c),
                                   date = today,
                                   difficulty = DIFFICULTIES_name (Component.difficulty c)\<rparr>
                                 # gameHistory (gameState c)))\<rparr>\<rparr>)"
proof -
  from assms(3) obtain h t where ht: "snake (gameState c) = h # t"
    by (cases "snake (gameState c)") auto
  show ?thesis
    using gameLoop_collision[OF assms(1,2) ht, of eager rnd today] assms(4) ht by simp
qed

text \<open>
  C4: in a tick that runs, a moved head that is off the board ends the game, and so does
  a moved head that is on any cell of the body as it is before the move, the tail's cell
  included; a head on the board and off the body does not.
\<close>

theorem collision_ends_game:
  "\<not> gameOver (gameState c) \<and> \<not> paused (gameState c) \<and> snake (gameState c) \<noteq> [] \<longrightarrow>
     (\<not> in_grid (move_head (direction (gameState c)) (hd (snake (gameState c)))) \<longrightarrow>
        (\<exists>c'. gameLoop eager rnd today c = Some c' \<and> gameOver (gameState c'))) \<and>
     (move_head (direction (gameState c)) (hd (snake (gameState c))) \<in> set (snake (gameState c)) \<longrightarrow>
        (\<exists>c'. gameLoop eager rnd today c = Some c' \<and> gameOver (gameState c'))) \<and>
     (move_head (direction (gameState c)) (hd (snake (gameState c))) = last (snake (gameState c)) \<longrightarrow>
        (\<exists>c'. gameLoop eager rnd today c = Some c' \<and> gameOver (gameState c'))) \<and>
     (in_grid (move_head (direction (gameState c)) (hd (snake (gameState c)))) \<and>
      move_head (direction (gameState c)) (hd (snake (gameState c))) \<notin> set (snake (gameState c)) \<longrightarrow>
        (\<forall>c'. gameLoop eager rnd today c = Some c' \<longrightarrow> \<not> gameOver (gameState c')))"
proof (intro impI)
  assume a: "\<not> gameOver (gameState c) \<and> \<not> paused (gameState c) \<and> snake (gameState c) \<noteq> []"
  then have run: "\<not> gameOver (gameState c)" "\<not> paused (gameState c)"
    and ne: "snake (gameState c) \<noteq> []" by simp_all
  let ?H = "move_head (direction (gameState c)) (hd (snake (gameState c)))"
  have hit: "\<exists>c'. gameLoop eager rnd today c = Some c' \<and> gameOver (gameState c')"
    if "\<not> in_grid ?H \<or> ?H \<in> set (snake (gameState c))"
    unfolding gameLoop_collision_hd[OF run ne that] by simp
  have miss: "\<not> gameOver (gameState c')"
    if free: "in_grid ?H" "?H \<notin> set (snake (gameState c))" and g: "gameLoop eager rnd today c = Some c'"
    for c'
    using g
  proof (cases rule: gameLoop_cases)
    case (collision h t)
    then show ?thesis using free by simp
  qed (use run in simp_all)
  show "(\<not> in_grid ?H \<longrightarrow> (\<exists>c'. gameLoop eager rnd today c = Some c' \<and> gameOver (gameState c'))) \<and>
     (?H \<in> set (snake (gameState c)) \<longrightarrow>
        (\<exists>c'. gameLoop eager rnd today c = Some c' \<and> gameOver (gameState c'))) \<and>
     (?H = last (snake (gameState c)) \<longrightarrow>
        (\<exists>c'. gameLoop eager rnd today c = Some c' \<and> gameOver (gameState c'))) \<and>
     (in_grid ?H \<and> ?H \<notin> set (snake (gameState c)) \<longrightarrow>
        (\<forall>c'. gameLoop eager rnd today c = Some c' \<longrightarrow> \<not> gameOver (gameState c')))"
  proof (intro conjI impI allI)
    assume "\<not> in_grid ?H"
    then show "\<exists>c'. gameLoop eager rnd today c = Some c' \<and> gameOver (gameState c')"
      by (intro hit) simp
  next
    assume "?H \<in> set (snake (gameState c))"
    then show "\<exists>c'. gameLoop eager rnd today c = Some c' \<and> gameOver (gameState c')"
      by (intro hit) simp
  next
    assume "?H = last (snake (gameState c))"
    then have "?H \<in> set (snake (gameState c))" using ne by simp
    then show "\<exists>c'. gameLoop eager rnd today c = Some c' \<and> gameOver (gameState c')"
      by (intro hit) simp
  next
    fix c'
    assume "in_grid ?H \<and> ?H \<notin> set (snake (gameState c))" "gameLoop eager rnd today c = Some c'"
    then show "\<not> gameOver (gameState c')" using miss by blast
  qed
qed

theorem collision_ends_game_witness:
  "\<not> gameOver (gameState tail_chase) \<and> \<not> paused (gameState tail_chase) \<and>
   snake (gameState tail_chase) \<noteq> [] \<and>
   move_head (direction (gameState tail_chase)) (hd (snake (gameState tail_chase))) = \<lparr>x = 5, y = 6\<rparr> \<and>
   last (snake (gameState tail_chase)) = \<lparr>x = 5, y = 6\<rparr> \<and>
   in_grid \<lparr>x = 5, y = 6\<rparr> \<and>
   (\<exists>c'. gameLoop False sample_random ''2024-01-01'' tail_chase = Some c' \<and> gameOver (gameState c')) \<and>
   \<not> gameOver (gameState at_left_wall) \<and> \<not> paused (gameState at_left_wall) \<and>
   snake (gameState at_left_wall) \<noteq> [] \<and>
   \<not> in_grid (move_head (direction (gameState at_left_wall)) (hd (snake (gameState at_left_wall)))) \<and>
   (\<exists>c'. gameLoop False sample_random ''2024-01-01'' at_left_wall = Some c' \<and> gameOver (gameState c')) \<and>
   \<not> gameOver (gameState fresh_game) \<and> \<not> paused (gameState fresh_game) \<and>
   snake (gameState fresh_game) \<noteq> [] \<and>
   in_grid (move_head (direction (gameState fresh_game)) (hd (snake (gameState fresh_game)))) \<and>
   move_head (direction (gameState fresh_game)) (hd (snake (gameState fresh_game)))
     \<notin> set (snake (gameState fresh_game)) \<and>
   gameLoop False sample_random ''2024-01-01'' fresh_game = Some after_meal \<and>
   \<not> gameOver (gameState after_meal)"
proof -
  let ?today = "''2024-01-01''"
  have tc: "\<not> gameOver (gameState tail_chase)" "\<not> paused (gameState tail_chase)"
    "snake (gameState tail_chase) \<noteq> []"
    "move_head (direction (gameState tail_chase)) (hd (snake (gameState tail_chase))) = \<lparr>x = 5, y = 6\<rparr>"
    "last (snake (gameState tail_chase)) = \<lparr>x = 5, y = 6\<rparr>"
    "in_grid \<lparr>x = 5, y = 6\<rparr>"
    by (simp_all add: tail_chase_def fresh_game_def move_head_def in_grid_def GRID_SIZE_def)
  have tl: "move_head (direction (gameState tail_chase)) (hd (snake (gameState tail_chase))) =
      last (snake (gameState tail_chase))"
    unfolding tc(4,5) ..
  have lw: "\<not> gameOver (gameState at_left_wall)" "\<not> paused (gameState at_left_wall)"
    "snake (gameState at_left_wall) \<noteq> []"
    "\<not> in_grid (move_head (direction (gameState at_left_wall)) (hd (snake (gameState at_left_wall))))"
    by (simp_all add: at_left_wall_def fresh_game_def move_head_def in_grid_def GRID_SIZE_def)
  have fg: "\<not> gameOver (gameState fresh_game)" "\<not> paused (gameState fresh_game)"
    "snake (gameState fresh_game) \<noteq> []"
    "in_grid (move_head (direction (gameState fresh_game)) (hd (snake (gameState fresh_game))))"
    "move_head (direction (gameState fresh_game)) (hd (snake (gameState fresh_game)))
       \<notin> set (snake (gameState fresh_game))"
    by (simp_all add: fresh_game_def move_head_def in_grid_def GRID_SIZE_def)
  note t = fresh_game_tick[of False ?today]
  note p1 = collision_ends_game[of tail_chase False sample_random ?today, THEN mp,
      OF conjI[OF tc(1) conjI[OF tc(2,3)]], THEN conjunct2, THEN conjunct2, THEN conjunct1,
      THEN mp, OF tl]
  note p2 = collision_ends_game[of at_left_wall False sample_random ?today, THEN mp,
      OF conjI[OF lw(1) conjI[OF lw(2,3)]], THEN conjunct1, THEN mp, OF lw(4)]
  note p3 = collision_ends_game[of fresh_game False sample_random ?today, THEN mp,
      OF conjI[OF fg(1) conjI[OF fg(2,3)]], THEN conjunct2, THEN conjunct2, THEN conjunct2,
      THEN mp, OF conjI[OF fg(4,5)], THEN spec, THEN mp, OF t]
  show ?thesis
    using tc lw fg t p1 p2 p3 by (intro conjI) (simp_all only: simp_thms)
qed

section \<open>The record of a lost game\<close>

lemma at_corner_reachable: "reachable at_corner"
  unfolding at_corner_def by (rule corner_reachable)

lemma at_corner_fields:
  "\<not> gameOver (gameState at_corner)" "\<not> paused (gameState at_corner)"
  "snake (gameState at_corner) \<noteq> []"
  "move_head (direction (gameState at_corner)) (hd (snake (gameState at_corner))) = \<lparr>x = 0, y = - 1\<rparr>"
  "\<not> in_grid \<lparr>x = 0, y = - 1\<rparr>"
  "gameStarted at_corner"
  "GameState.score (gameState at_corner) = 0" "GameState.level (gameState at_corner) = 1"
  "gameHistory (gameState at_corner) = []" "highScore (gameState at_corner) = 0"
  "DIFFICULTIES_name (Component.difficulty at_corner) = ''Medium''"
  by (simp_all add: at_corner_def walk_def fresh_game_def move_head_def in_grid_def GRID_SIZE_def)

lemma at_corner_out:
  "\<not> in_grid (move_head (direction (gameState at_corner)) (hd (snake (gameState at_corner))))"
  unfolding at_corner_fields(4) by (rule at_corner_fields(5))

lemma at_corner_tick:
  "gameLoop False rnd ''2024-01-01'' at_corner = Some lost_at_corner"
  unfolding gameLoop_collision_hd[OF at_corner_fields(1,2,3) disjI1[OF at_corner_out]]
  by (simp add: at_corner_fields lost_at_corner_def)

text \<open>
  C6: a tick that runs and moves the head off the board makes exactly one call of
  \<open>saveGameData\<close>, with the score and the level from before the collision, and sets the
  game over; the call writes to storage the history with one new record in front,
  carrying that score and level, the day and the name of the current difficulty (the
  history kept to ten records), and the high score.
\<close>

theorem wall_hit_saves_one_record:
  "\<not> gameOver (gameState c) \<and> \<not> paused (gameState c) \<and> snake (gameState c) \<noteq> [] \<and>
   \<not> in_grid (move_head (direction (gameState c)) (hd (snake (gameState c)))) \<longrightarrow>
     gameLoop_update rnd (gameState c) =
       Some ((gameState c)\<lparr>gameOver := True\<rparr>,
             [(GameState.score (gameState c), GameState.level (gameState c))]) \<and>
     (\<exists>c'. gameLoop eager rnd today c = Some c' \<and> gameOver (gameState c') \<and>
        localStorage c' =
          localStorage (saveGameData today c (GameState.score (gameState c))
                          (GameState.level (gameState c)) c) \<and>
        snakeGameHistory (localStorage c') =
          Some (take 10 (\<lparr>GameRecord.score = GameState.score (gameState c),
                           GameRecord.level = GameState.level (gameState c),
                           date = today,
                           difficulty = DIFFICULTIES_name (Component.difficulty c)\<rparr>
                         # gameHistory (gameState c))) \<and>
        snakeHighScore (localStorage c') =
          Some (max (highScore (gameState c)) (GameState.score (gameState c))))"
proof (intro impI conjI)
  assume a: "\<not> gameOver (gameState c) \<and> \<not> paused (gameState c) \<and> snake (gameState c) \<noteq> [] \<and>
   \<not> in_grid (move_head (direction (gameState c)) (hd (snake (gameState c))))"
  then have run: "\<not> gameOver (gameState c)" "\<not> paused (gameState c)"
    and ne: "snake (gameState c) \<noteq> []"
    and out: "\<not> in_grid (move_head (direction (gameState c)) (hd (snake (gameState c))))"
    by simp_all
  from ne obtain h t where ht: "snake (gameState c) = h # t"
    by (cases "snake (gameState c)") auto
  show "gameLoop_update rnd (gameState c) =
       Some ((gameState c)\<lparr>gameOver := True\<rparr>,
             [(GameState.score (gameState c), GameState.level (gameState c))])"
    unfolding gameLoop_update_Cons[OF ht] using out ht by simp
  have hit: "\<not> in_grid (move_head (direction (gameState c)) (hd (snake (gameState c)))) \<or>
    move_head (direction (gameState c)) (hd (snake (gameState c))) \<in> set (snake (gameState c))"
    using out by simp
  show "\<exists>c'. gameLoop eager rnd today c = Some c' \<and> gameOver (gameState c') \<and>
        localStorage c' =
          localStorage (saveGameData today c (GameState.score (gameState c))
                          (GameState.level (gameState c)) c) \<and>
        snakeGameHistory (localStorage c') =
          Some (take 10 (\<lparr>GameRecord.score = GameState.score (gameState c),
                           GameRecord.level = GameState.level (gameState c),
                           date = today,
                           difficulty = DIFFICULTIES_name (Component.difficulty c)\<rparr>
                         # gameHistory (gameState c))) \<and>
        snakeHighScore (localStorage c') =
          Some (max (highScore (gameState c)) (GameState.score (gameState c)))"
    unfolding gameLoop_collision_hd[OF run ne hit]
    by (simp add: saveGameData_def Let_def)
qed

theorem wall_hit_saves_one_record_witness:
  "reachable at_corner \<and>
   \<not> gameOver (gameState at_corner) \<and> \<not> paused (gameState at_corner) \<and>
   snake (gameState at_corner) \<noteq> [] \<and>
   move_head (direction (gameState at_corner)) (hd (snake (gameState at_corner))) = \<lparr>x = 0, y = - 1\<rparr> \<and>
   \<not> in_grid \<lparr>x = 0, y = - 1\<rparr> \<and>
   gameLoop_update zero_random (gameState at_corner) =
     Some ((gameState at_corner)\<lparr>gameOver := True\<rparr>, [(0, 1)]) \<and>
   (\<exists>c'. gameLoop True zero_random ''2024-01-01'' at_corner = Some c' \<and> gameOver (gameState c') \<and>
      snakeGameHistory (localStorage c') =
        Some [\<lparr>GameRecord.score = 0, GameRecord.level = 1, date = ''2024-01-01'',
               difficulty = ''Medium''\<rparr>] \<and>
      snakeHighScore (localStorage c') = Some 0) \<and>
   (\<exists>c'. gameLoop False zero_random ''2024-01-01'' at_corner = Some c' \<and> gameOver (gameState c') \<and>
      snakeGameHistory (localStorage c') =
        Some [\<lparr>GameRecord.score = 0, GameRecord.level = 1, date = ''2024-01-01'',
               difficulty = ''Medium''\<rparr>] \<and>
      snakeHighScore (localStorage c') = Some 0)"
proof -
  note hyp = conjI[OF at_corner_fields(1) conjI[OF at_corner_fields(2)
      conjI[OF at_corner_fields(3) at_corner_out]]]
  note p = wall_hit_saves_one_record[of at_corner zero_random _ "''2024-01-01''", THEN mp, OF hyp]
  have q: "gameLoop_update zero_random (gameState at_corner) =
       Some ((gameState at_corner)\<lparr>gameOver := True\<rparr>, [(0, 1)]) \<and>
     (\<exists>c'. gameLoop e zero_random ''2024-01-01'' at_corner = Some c' \<and> gameOver (gameState c') \<and>
        snakeGameHistory (localStorage c') =
          Some [\<lparr>GameRecord.score = 0, GameRecord.level = 1, date = ''2024-01-01'',
                 difficulty = ''Medium''\<rparr>] \<and>
        snakeHighScore (localStorage c') = Some 0)" for e
    using p[of e] by (auto simp: at_corner_fields(7-11))
  show ?thesis
    using at_corner_reachable at_corner_fields(1-5) q[of True] q[of False]
    by (intro conjI) (simp_all only: simp_thms)
qed

section \<open>What a collision changes\<close>

text \<open>
  C10, as the code has it: a tick that ends in a collision, with a wall or with the
  body, leaves snake, food, score, level, direction and the pause flag as they were and
  sets the game-over flag. When React overwrites the update that \<open>saveGameData\<close> queued,
  that flag is the only field of the game state that changes; when React applies it,
  the high score and the history change as well.
\<close>

theorem collision_keeps_playing_state:
  "\<not> gameOver (gameState c) \<and> \<not> paused (gameState c) \<and> snake (gameState c) \<noteq> [] \<and>
   (\<not> in_grid (move_head (direction (gameState c)) (hd (snake (gameState c)))) \<or>
    move_head (direction (gameState c)) (hd (snake (gameState c))) \<in> set (snake (gameState c))) \<longrightarrow>
     (\<exists>c'. gameLoop eager rnd today c = Some c' \<and>
        snake (gameState c') = snake (gameState c) \<and>
        food (gameState c') = food (gameState c) \<and>
        GameState.score (gameState c') = GameState.score (gameState c) \<and>
        GameState.level (gameState c') = GameState.level (gameState c) \<and>
        direction (gameState c') = direction (gameState c) \<and>
        paused (gameState c') = paused (gameState c) \<and>
        gameOver (gameState c')) \<and>
     (\<exists>c'. gameLoop True rnd today c = Some c' \<and>
        gameState c' = (gameState c)\<lparr>gameOver := True\<rparr>) \<and>
     (\<exists>c'. gameLoop False rnd today c = Some c' \<and>
        gameState c' = (gameState c)
          \<lparr>gameOver := True,
           highScore := max (highScore (gameState c)) (GameState.score (gameState c)),
           gameHistory :=
             take 10 (\<lparr>GameRecord.score = GameState.score (gameState c),
                        GameRecord.level = GameState.level (gameState c),
                        date = today,
                        difficulty = DIFFICULTIES_name (Component.difficulty c)\<rparr>
                      # gameHistory (gameState c))\<rparr>)"
proof (intro impI)
  assume a: "\<not> gameOver (gameState c) \<and> \<not> paused (gameState c) \<and> snake (gameState c) \<noteq> [] \<and>
   (\<not> in_grid (move_head (direction (gameState c)) (hd (snake (gameState c)))) \<or>
    move_head (direction (gameState c)) (hd (snake (gameState c))) \<in> set (snake (gameState c)))"
  then have run: "\<not> gameOver (gameState c)" "\<not> paused (gameState c)"
    and ne: "snake (gameState c) \<noteq> []"
    and hit: "\<not> in_grid (move_head (direction (gameState c)) (hd (snake (gameState c)))) \<or>
      move_head (direction (gameState c)) (hd (snake (gameState c))) \<in> set (snake (gameState c))"
    by simp_all
  note eq = gameLoop_collision_hd[OF run ne hit]
  have 1: "\<exists>c'. gameLoop eager rnd today c = Some c' \<and>
        snake (gameState c') = snake (gameState c) \<and>
        food (gameState c') = food (gameState c) \<and>
        GameState.score (gameState c') = GameState.score (gameState c) \<and>
        GameState.level (gameState c') = GameState.level (gameState c) \<and>
        direction (gameState c') = direction (gameState c) \<and>
        paused (gameState c') = paused (gameState c) \<and>
        gameOver (gameState c')"
    unfolding eq by simp
  have 2: "\<exists>c'. gameLoop True rnd today c = Some c' \<and>
        gameState c' = (gameState c)\<lparr>gameOver := True\<rparr>"
    unfolding eq by simp
  have 3: "\<exists>c'. gameLoop False rnd today c = Some c' \<and>
        gameState c' = (gameState c)
          \<lparr>gameOver := True,
           highScore := max (highScore (gameState c)) (GameState.score (gameState c)),
           gameHistory :=
             take 10 (\<lparr>GameRecord.score = GameState.score (gameState c),
                        GameRecord.level = GameState.level (gameState c),
                        date = today,
                        difficulty = DIFFICULTIES_name (Component.difficulty c)\<rparr>
                      # gameHistory (gameState c))\<rparr>"
    unfolding eq by simp
  from 1 2 3 show "(\<exists>c'. gameLoop eager rnd today c = Some c' \<and>
        snake (gameState c') = snake (gameState c) \<and>
        food (gameState c') = food (gameState c) \<and>
        GameState.score (gameState c') = GameState.score (gameState c) \<and>
        GameState.level (gameState c') = GameState.level (gameState c) \<and>
        direction (gameState c') = direction (gameState c) \<and>
        paused (gameState c') = paused (gameState c) \<and>
        gameOver (gameState c')) \<and>
     (\<exists>c'. gameLoop True rnd today c = Some c' \<and>
        gameState c' = (gameState c)\<lparr>gameOver := True\<rparr>) \<and>
     (\<exists>c'. gameLoop False rnd today c = Some c' \<and>
        gameState c' = (gameState c)
          \<lparr>gameOver := True,
           highScore := max (highScore (gameState c)) (GameState.score (gameState c)),
           gameHistory :=
             take 10 (\<lparr>GameRecord.score = GameState.score (gameState c),
                        GameRecord.level = GameState.level (gameState c),
                        date = today,
                        difficulty = DIFFICULTIES_name (Component.difficulty c)\<rparr>
                      # gameHistory (gameState c))\<rparr>)"
    by (intro conjI)
qed

theorem collision_keeps_playing_state_witness:
  "reachable at_corner \<and>
   \<not> gameOver (gameState at_corner) \<and> \<not> paused (gameState at_corner) \<and>
   snake (gameState at_corner) \<noteq> [] \<and>
   \<not> in_grid (move_head (direction (gameState at_corner)) (hd (snake (gameState at_corner)))) \<and>
   (\<exists>c'. gameLoop True zero_random ''2024-01-01'' at_corner = Some c' \<and>
      gameState c' = (gameState at_corner)\<lparr>gameOver := True\<rparr>) \<and>
   gameLoop False zero_random ''2024-01-01'' at_corner = Some lost_at_corner \<and>
   snake (gameState lost_at_corner) = snake (gameState at_corner) \<and>
   gameOver (gameState lost_at_corner) \<and>
   \<not> gameOver (gameState tail_chase) \<and> \<not> paused (gameState tail_chase) \<and>
   snake (gameState tail_chase) \<noteq> [] \<and>
   move_head (direction (gameState tail_chase)) (hd (snake (gameState tail_chase)))
     \<in> set (snake (gameState tail_chase)) \<and>
   (\<exists>c'. gameLoop True sample_random ''2024-01-01'' tail_chase = Some c' \<and>
        snake (gameState c') = snake (gameState tail_chase) \<and>
        food (gameState c') = food (gameState tail_chase) \<and>
        GameState.score (gameState c') = GameState.score (gameState tail_chase) \<and>
        GameState.level (gameState c') = GameState.level (gameState tail_chase) \<and>
        direction (gameState c') = direction (gameState tail_chase) \<and>
        paused (gameState c') = paused (gameState tail_chase) \<and>
        gameOver (gameState c'))"
proof -
  let ?today = "''2024-01-01''"
  have tc: "\<not> gameOver (gameState tail_chase)" "\<not> paused (gameState tail_chase)"
    "snake (gameState tail_chase) \<noteq> []"
    "move_head (direction (gameState tail_chase)) (hd (snake (gameState tail_chase)))
       \<in> set (snake (gameState tail_chase))"
    by (simp_all add: tail_chase_def fresh_game_def move_head_def)
  note p1 = collision_keeps_playing_state[of at_corner _ zero_random ?today, THEN mp,
      OF conjI[OF at_corner_fields(1) conjI[OF at_corner_fields(2)
        conjI[OF at_corner_fields(3) disjI1[OF at_corner_out]]]]]
  note p2 = collision_keeps_playing_state[of tail_chase True sample_random ?today, THEN mp,
      OF conjI[OF tc(1) conjI[OF tc(2) conjI[OF tc(3) disjI2[OF tc(4)]]]], THEN conjunct1]
  have l: "snake (gameState lost_at_corner) = snake (gameState at_corner)"
    "gameOver (gameState lost_at_corner)"
    using p1[of False, THEN conjunct1] unfolding at_corner_tick by simp_all
  show ?thesis
    using at_corner_reachable at_corner_fields(1-3) at_corner_out
      p1[of True, THEN conjunct2, THEN conjunct1] at_corner_tick[of zero_random] l tc p2
    by (intro conjI) (simp_all only: simp_thms)
qed

theorem collision_changes_history_counterexample:
  "reachable at_corner \<and> gameStarted at_corner \<and>
   \<not> gameOver (gameState at_corner) \<and> \<not> paused (gameState at_corner) \<and>
   \<not> in_grid (move_head (direction (gameState at_corner)) (hd (snake (gameState at_corner)))) \<and>
   gameLoop False zero_random ''2024-01-01'' at_corner = Some lost_at_corner \<and>
   gameOver (gameState lost_at_corner) \<and>
   gameState lost_at_corner \<noteq> (gameState at_corner)\<lparr>gameOver := True\<rparr> \<and>
   gameHistory (gameState lost_at_corner) \<noteq> gameHistory (gameState at_corner)"
proof -
  have h: "gameHistory (gameState lost_at_corner) \<noteq> gameHistory (gameState at_corner)"
    by (simp add: lost_at_corner_def at_corner_fields)
  have "gameState lost_at_corner \<noteq> (gameState at_corner)\<lparr>gameOver := True\<rparr>"
  proof
    assume "gameState lost_at_corner = (gameState at_corner)\<lparr>gameOver := True\<rparr>"
    then have "gameHistory (gameState lost_at_corner) =
      gameHistory ((gameState at_corner)\<lparr>gameOver := True\<rparr>)" by (rule arg_cong)
    then show False using h by simp
  qed
  moreover have "gameOver (gameState lost_at_corner)" by (simp add: lost_at_corner_def)
  ultimately show ?thesis
    using at_corner_reachable at_corner_fields(1,2,6) at_corner_out at_corner_tick[of zero_random] h
    by (intro conjI) (simp_all only: simp_thms)
qed

section \<open>Direction requests\<close>

text \<open>
  What the guard of \<open>handleKeyPress\<close> does give: a press of the arrow key opposite to the
  direction held in the game state changes nothing.
\<close>

lemma handleKeyPress_opposite:
  "direction (gameState c) = ''DOWN'' \<Longrightarrow> handleKeyPress ''ArrowUp'' c = c"
  "direction (gameState c) = ''UP'' \<Longrightarrow> handleKeyPress ''ArrowDown'' c = c"
  "direction (gameState c) = ''RIGHT'' \<Longrightarrow> handleKeyPress ''ArrowLeft'' c = c"
  "direction (gameState c) = ''LEFT'' \<Longrightarrow> handleKeyPress ''ArrowRight'' c = c"
  by (simp_all add: handleKeyPress_def)

lemma two_presses: "handleKeyPress ''ArrowLeft'' (handleKeyPress ''ArrowUp'' after_meal) = turned_round"
  by (simp add: handleKeyPress_def after_meal_def fresh_game_def turned_round_def)

lemma turned_round_reachable: "reachable turned_round"
  using r_key[OF r_key[OF after_meal_reachable, of "''ArrowUp''"], of "''ArrowLeft''"]
  by (simp only: two_presses)

lemma turned_round_tick:
  "\<exists>c'. gameLoop eager rnd today turned_round = Some c' \<and> gameOver (gameState c')"
proof -
  have f: "\<not> gameOver (gameState turned_round)" "\<not> paused (gameState turned_round)"
    "snake (gameState turned_round) \<noteq> []"
    "\<not> in_grid (move_head (direction (gameState turned_round)) (hd (snake (gameState turned_round)))) \<or>
     move_head (direction (gameState turned_round)) (hd (snake (gameState turned_round)))
       \<in> set (snake (gameState turned_round))"
    by (simp_all add: turned_round_def after_meal_def fresh_game_def move_head_def)
  show ?thesis unfolding gameLoop_collision_hd[OF f] by simp
qed

text \<open>
  C8, where the code breaks it: the snake of \<open>after_meal\<close> has just moved right, and a
  press of Left alone is ignored. But the state holds one direction only, the last
  request accepted, and that is what a key press is compared with: a press of Up is
  accepted, and then a press of Left is compared with Up and accepted too. The request
  for the opposite of the direction of travel has changed the direction of the next
  tick, which moves the head back onto the body and ends the game.
\<close>

theorem two_presses_reverse_the_snake:
  "reachable after_meal \<and>
   gameLoop False sample_random ''2024-01-01'' fresh_game = Some after_meal \<and>
   direction (gameState fresh_game) = ''RIGHT'' \<and>
   snake (gameState after_meal) = [\<lparr>x = 11, y = 10\<rparr>, \<lparr>x = 10, y = 10\<rparr>] \<and>
   direction (gameState after_meal) = ''RIGHT'' \<and>
   handleKeyPress ''ArrowLeft'' after_meal = after_meal \<and>
   handleKeyPress ''ArrowLeft'' (handleKeyPress ''ArrowUp'' after_meal) = turned_round \<and>
   reachable turned_round \<and>
   direction (gameState turned_round) = ''LEFT'' \<and>
   snake (gameState turned_round) = snake (gameState after_meal) \<and>
   move_head (direction (gameState turned_round)) (hd (snake (gameState turned_round))) =
     \<lparr>x = 10, y = 10\<rparr> \<and>
   (\<exists>c'. gameLoop True sample_random ''2024-01-01'' turned_round = Some c' \<and>
         gameOver (gameState c')) \<and>
   (\<exists>c'. gameLoop False sample_random ''2024-01-01'' turned_round = Some c' \<and>
         gameOver (gameState c'))"
proof -
  have v: "direction (gameState fresh_game) = ''RIGHT''"
    "snake (gameState after_meal) = [\<lparr>x = 11, y = 10\<rparr>, \<lparr>x = 10, y = 10\<rparr>]"
    "direction (gameState after_meal) = ''RIGHT''"
    "direction (gameState turned_round) = ''LEFT''"
    "snake (gameState turned_round) = snake (gameState after_meal)"
    "move_head (direction (gameState turned_round)) (hd (snake (gameState turned_round))) =
       \<lparr>x = 10, y = 10\<rparr>"
    by (simp_all add: fresh_game_def after_meal_def turned_round_def move_head_def)
  show ?thesis
    using after_meal_reachable fresh_game_tick[of False "''2024-01-01''"] v
      handleKeyPress_opposite(3)[OF v(3)] two_presses turned_round_reachable
      turned_round_tick[of True sample_random "''2024-01-01''"]
      turned_round_tick[of False sample_random "''2024-01-01''"]
    by (intro conjI) (simp_all only: simp_thms)
qed

text \<open>The guard at the head of \<open>handleKeyPress\<close> is passed in this run: the game is started and not over.\<close>

theorem two_presses_reverse_the_snake_witness:
  "gameStarted after_meal \<and> \<not> gameOver (gameState after_meal) \<and>
   handleKeyPress ''ArrowLeft'' (handleKeyPress ''ArrowUp'' after_meal) = turned_round \<and>
   direction (gameState after_meal) = ''RIGHT'' \<and>
   direction (gameState turned_round) = ''LEFT'' \<and>
   (\<exists>c'. gameLoop False sample_random ''2024-01-01'' turned_round = Some c' \<and>
         gameOver (gameState c'))"
proof -
  have "gameStarted after_meal" "\<not> gameOver (gameState after_meal)"
    by (simp_all add: after_meal_def fresh_game_def)
  then show ?thesis
    using two_presses_reverse_the_snake by (intro conjI) (simp_all only: simp_thms)
qed

end
